theory Spec2Isabelle
  imports Complex_Main "HOL-Library.Sublist" "HOL-Library.AList" "HOL-Library.Multiset"
begin

section \<open>Router backup script: strings, exceptions and log lines\<close>

text \<open>
  The development follows \<^verbatim>\<open>backup_mkt.py\<close>. Python strings are \<^typ>\<open>string\<close>,
  the clock and file times (Python floats) are \<^typ>\<open>real\<close> with exact arithmetic,
  every exception the script can meet is a value of \<open>exn\<close>, and every call of
  \<^verbatim>\<open>logging\<close> appends one structured line to a log.
\<close>

subsection \<open>\<^verbatim>\<open>str.startswith\<close>, \<^verbatim>\<open>str.endswith\<close>, \<^verbatim>\<open>str.replace\<close>\<close>

definition startswith :: "string \<Rightarrow> string \<Rightarrow> bool" where
  "startswith s p = (take (length p) s = p)"

definition endswith :: "string \<Rightarrow> string \<Rightarrow> bool" where
  "endswith s p = (length p \<le> length s \<and> drop (length s - length p) s = p)"

text \<open>\<^verbatim>\<open>s.endswith((p1, p2))\<close>: one of the suffixes of the tuple matches.\<close>

definition endswith_any :: "string \<Rightarrow> string list \<Rightarrow> bool" where
  "endswith_any s ps = list_ex (endswith s) ps"

text \<open>
  \<^verbatim>\<open>s.replace(old, new)\<close> scans from the left and replaces every occurrence of
  \<open>old\<close> that does not overlap an earlier replaced one; with an empty \<open>old\<close> Python
  puts \<open>new\<close> before every character and at the end.
\<close>

fun str_replace :: "string \<Rightarrow> string \<Rightarrow> string \<Rightarrow> string" where
  "str_replace [] old new = (if old = [] then new else [])"
| "str_replace (c # cs) old new =
     (if old = [] then new @ c # str_replace cs old new
      else if startswith (c # cs) old
        then new @ str_replace (drop (length old) (c # cs)) old new
      else c # str_replace cs old new)"

subsection \<open>Exceptions\<close>

text \<open>
  \<^verbatim>\<open>FileNotFoundError\<close> and \<^verbatim>\<open>PermissionError\<close> are subclasses of
  \<^verbatim>\<open>OSError\<close>; \<^verbatim>\<open>paramiko.AuthenticationException\<close> is a subclass of
  \<^verbatim>\<open>paramiko.SSHException\<close>. \<open>OtherException\<close> stands for any exception that is
  neither an \<^verbatim>\<open>OSError\<close> nor an \<^verbatim>\<open>SSHException\<close> (\<^verbatim>\<open>EOFError\<close>,
  \<^verbatim>\<open>ValueError\<close>, ...): no handler of the script names such a class.
\<close>

datatype oserror = FileNotFoundError | PermissionError | OtherOSError

datatype exn =
    OSError oserror
  | AuthenticationException
  | SSHException
  | IndexError
  | OtherException

fun is_OSError :: "exn \<Rightarrow> bool" where
  "is_OSError (OSError _) = True"
| "is_OSError _ = False"

fun is_SSHException :: "exn \<Rightarrow> bool" where
  "is_SSHException AuthenticationException = True"
| "is_SSHException SSHException = True"
| "is_SSHException _ = False"

subsection \<open>The log\<close>

text \<open>One constructor per \<^verbatim>\<open>logging\<close> call of the script, with the values it formats.\<close>

datatype nivel = INFO | WARNING | ERROR

datatype log_line =
    Conexion_autenticacion string
  | Conexion_ssh string
  | Conexion_sistema string
  | Descargado string string
  | Descarga_no_encontrado
  | Descarga_permiso
  | Descarga_ssh string
  | Descarga_sistema string
  | Falta_en_router string string
  | Router_ssh string
  | Router_sistema string
  | Renombrado string string
  | Renombrar_no_encontrado
  | Renombrar_permiso
  | Renombrar_sistema string

fun nivel_de :: "log_line \<Rightarrow> nivel" where
  "nivel_de (Descargado _ _) = INFO"
| "nivel_de (Renombrado _ _) = INFO"
| "nivel_de (Falta_en_router _ _) = WARNING"
| "nivel_de _ = ERROR"

section \<open>Retention rotation: \<^verbatim>\<open>renombrar_backups_antiguos\<close>\<close>

definition DIAS_MAXIMOS :: real where
  "DIAS_MAXIMOS = 6"

text \<open>
  The backup directory: its entries in the order \<^verbatim>\<open>os.listdir\<close> gives them, each with
  the time \<^verbatim>\<open>os.path.getctime\<close> reports; \<open>falla\<close> says which calls the operating
  system refuses (permissions, a target that is a directory, ...), and \<open>sello\<close> is the
  time a renamed entry reports afterwards (the old one where it is a creation time, the
  time of the rename where it is the last status change). The calls are those of the
  rotation, and the opening of a local file for writing that a download starts with.
\<close>

datatype os_call = Getctime string | Rename string string | Abrir string

record directorio =
  entradas :: "(string \<times> real) list"
  falla :: "os_call \<Rightarrow> oserror option"
  sello :: "real \<Rightarrow> real"

text \<open>
  \<^verbatim>\<open>os.listdir\<close> of the backup directory, which is the directory the script runs in;
  the listing itself is taken to succeed.
\<close>

definition os_listdir :: "directorio \<Rightarrow> string list" where
  "os_listdir d = map fst (entradas d)"

definition os_path_getctime :: "directorio \<Rightarrow> string \<Rightarrow> oserror + real" where
  "os_path_getctime d archivo =
     (case falla d (Getctime archivo) of
        Some e \<Rightarrow> Inl e
      | None \<Rightarrow>
          (case map_of (entradas d) archivo of
             None \<Rightarrow> Inl FileNotFoundError
           | Some t \<Rightarrow> Inr t))"

text \<open>\<^verbatim>\<open>os.rename\<close>: the entry takes the new name, replacing an entry that has it.\<close>

definition os_rename :: "directorio \<Rightarrow> string \<Rightarrow> string \<Rightarrow> oserror + directorio" where
  "os_rename d viejo nuevo =
     (case falla d (Rename viejo nuevo) of
        Some e \<Rightarrow> Inl e
      | None \<Rightarrow>
          (case map_of (entradas d) viejo of
             None \<Rightarrow> Inl FileNotFoundError
           | Some t \<Rightarrow>
               Inr (d\<lparr>entradas := AList.update nuevo (sello d t)
                                      (AList.delete viejo (entradas d))\<rparr>)))"

text \<open>The test of lines 150-152: a backup extension, and not yet the superseded one.\<close>

definition es_candidato :: "string \<Rightarrow> bool" where
  "es_candidato archivo =
     (endswith_any archivo [''.rsc'', ''.backup'']
      \<and> \<not> endswith_any archivo [''-old.rsc'', ''-old.backup''])"

text \<open>Line 154.\<close>

definition antiguedad_dias :: "real \<Rightarrow> real \<Rightarrow> real" where
  "antiguedad_dias ahora fecha_creacion = (ahora - fecha_creacion) / (24 * 3600)"

text \<open>Lines 156-158.\<close>

definition nuevo_nombre :: "string \<Rightarrow> string" where
  "nuevo_nombre archivo =
     str_replace (str_replace archivo ''.rsc'' ''-old.rsc'') ''.backup'' ''-old.backup''"

text \<open>The three handlers of lines 161-168, each of which logs and goes on.\<close>

fun renombrar_error :: "oserror \<Rightarrow> string \<Rightarrow> log_line" where
  "renombrar_error FileNotFoundError archivo = Renombrar_no_encontrado"
| "renombrar_error PermissionError archivo = Renombrar_permiso"
| "renombrar_error OtherOSError archivo = Renombrar_sistema archivo"

text \<open>The body of the loop, for one name of the listing.\<close>

definition rotar_uno ::
  "real \<Rightarrow> directorio \<times> log_line list \<Rightarrow> string \<Rightarrow> directorio \<times> log_line list" where
  "rotar_uno ahora dl archivo =
     (if es_candidato archivo then
        (case os_path_getctime (fst dl) archivo of
           Inl e \<Rightarrow> (fst dl, snd dl @ [renombrar_error e archivo])
         | Inr fecha_creacion \<Rightarrow>
             if antiguedad_dias ahora fecha_creacion > DIAS_MAXIMOS then
               (case os_rename (fst dl) archivo (nuevo_nombre archivo) of
                  Inl e \<Rightarrow> (fst dl, snd dl @ [renombrar_error e archivo])
                | Inr d' \<Rightarrow> (d', snd dl @ [Renombrado archivo (nuevo_nombre archivo)]))
             else dl)
      else dl)"

text \<open>
  When a turn of the loop renames: the name is a candidate, the entry is there and older
  than the threshold, and the operating system refuses neither call.
\<close>

definition se_renombra :: "real \<Rightarrow> directorio \<Rightarrow> string \<Rightarrow> bool" where
  "se_renombra ahora d x =
     (es_candidato x \<and> falla d (Getctime x) = None
      \<and> falla d (Rename x (nuevo_nombre x)) = None
      \<and> (case map_of (entradas d) x of
            None \<Rightarrow> False
          | Some fecha \<Rightarrow> DIAS_MAXIMOS < antiguedad_dias ahora fecha))"

text \<open>
  \<^verbatim>\<open>renombrar_backups_antiguos\<close> at clock reading \<open>ahora\<close>: the listing is taken
  once, before the loop.
\<close>

definition renombrar_backups_antiguos ::
  "real \<Rightarrow> directorio \<Rightarrow> directorio \<times> log_line list" where
  "renombrar_backups_antiguos ahora d = foldl (rotar_uno ahora) (d, []) (os_listdir d)"

text \<open>The renames a log reports: one line per \<^verbatim>\<open>os.rename\<close> that succeeded.\<close>

fun renombrados :: "log_line list \<Rightarrow> (string \<times> string) list" where
  "renombrados [] = []"
| "renombrados (Renombrado a n # ls) = (a, n) # renombrados ls"
| "renombrados (_ # ls) = renombrados ls"

section \<open>Sessions and downloads\<close>

text \<open>
  An \<^verbatim>\<open>SSHClient\<close> object: the router it is connected to and how many times
  \<^verbatim>\<open>close()\<close> has been called on it. It is open while that count is 0.
\<close>

record sesion =
  host :: string
  cierres :: nat

text \<open>
  What a router answers. \<open>r_cwd\<close> is the directory the SFTP server resolves relative
  paths against, as the list of its components (the root is \<open>[]\<close>); \<open>r_hora\<close> is the
  local clock when a file fetched from this router is written.
\<close>

record router =
  r_open_sftp :: "exn option"
  r_listdir :: "string \<Rightarrow> exn + string list"
  r_get :: "string \<Rightarrow> string \<Rightarrow> exn option"
  r_cwd :: "string list"
  r_hora :: real

text \<open>The requests sent over SFTP, with their arguments as the script writes them.\<close>

datatype sftp_op = Listdir string | Get string string

text \<open>
  The state the jobs and the rotation share: the log, the backup directory, and the
  SFTP requests made so far.
\<close>

record mundo =
  registro :: "log_line list"
  dir :: directorio
  pedidos :: "sftp_op list"

definition anotar :: "log_line \<Rightarrow> mundo \<Rightarrow> mundo" where
  "anotar l w = w\<lparr>registro := registro w @ [l]\<rparr>"

text \<open>\<^verbatim>\<open>os.path.join\<close> of two parts, with \<^verbatim>\<open>/\<close> as the separator.\<close>

definition os_path_join :: "string \<Rightarrow> string \<Rightarrow> string" where
  "os_path_join a b =
     (if startswith b ''/'' then b
      else if a = [] \<or> endswith a ''/'' then a @ b
      else a @ ''/'' @ b)"

text \<open>
  A file written at path \<open>os_path_join backup_path nombre\<close> is an entry of the backup
  directory when \<open>nombre\<close> has no separator in it.
\<close>

definition escribir_local :: "string \<Rightarrow> real \<Rightarrow> directorio \<Rightarrow> directorio" where
  "escribir_local nombre t d =
     (if CHR ''/'' \<in> set nombre then d
      else d\<lparr>entradas := AList.update nombre t (entradas d)\<rparr>)"

subsection \<open>\<^verbatim>\<open>conectar_ssh\<close>\<close>

text \<open>
  The \<^verbatim>\<open>except\<close> clauses of lines 46-55, tried in order: the line logged by the
  first clause that matches, \<open>None\<close> when none does and the exception goes on.
\<close>

definition manejar_conexion :: "exn \<Rightarrow> string \<Rightarrow> log_line option" where
  "manejar_conexion e ip_address =
     (if e = AuthenticationException then Some (Conexion_autenticacion ip_address)
      else if is_SSHException e then Some (Conexion_ssh ip_address)
      else if is_OSError e then Some (Conexion_sistema ip_address)
      else None)"

text \<open>
  The result is the exception that leaves the function (if any), the value returned
  (\<open>None\<close> is Python's \<^verbatim>\<open>None\<close>) and the log.
\<close>

definition conectar_ssh ::
  "(string \<Rightarrow> exn option) \<Rightarrow> string \<Rightarrow> log_line list
     \<Rightarrow> exn option \<times> sesion option \<times> log_line list" where
  "conectar_ssh connect ip_address lg =
     (case connect ip_address of
        None \<Rightarrow> (None, Some \<lparr>host = ip_address, cierres = 0\<rparr>, lg)
      | Some e \<Rightarrow>
          (case manejar_conexion e ip_address of
             Some l \<Rightarrow> (None, None, lg @ [l])
           | None \<Rightarrow> (Some e, None, lg)))"

subsection \<open>\<^verbatim>\<open>descargar_archivo\<close>\<close>

text \<open>The \<^verbatim>\<open>except\<close> clauses of lines 84-91, tried in order.\<close>

definition manejar_descarga :: "exn \<Rightarrow> string \<Rightarrow> log_line option" where
  "manejar_descarga e archivo =
     (if e = OSError FileNotFoundError then Some Descarga_no_encontrado
      else if e = OSError PermissionError then Some Descarga_permiso
      else if is_SSHException e then Some (Descarga_ssh archivo)
      else if is_OSError e then Some (Descarga_sistema archivo)
      else None)"

text \<open>
  \<^verbatim>\<open>sftp_client.get\<close> opens the local file for writing before it asks the router
  for the remote one. When the call raises, the file it had opened stays in the
  directory, unless the operating system refused to open it.
\<close>

definition resto_local :: "string \<Rightarrow> real \<Rightarrow> directorio \<Rightarrow> directorio" where
  "resto_local nombre t d =
     (case falla d (Abrir nombre) of
        None \<Rightarrow> escribir_local nombre t d
      | Some _ \<Rightarrow> d)"

definition descargar_archivo ::
  "router \<Rightarrow> string \<Rightarrow> string \<Rightarrow> string \<Rightarrow> string \<Rightarrow> mundo \<Rightarrow> exn option \<times> mundo" where
  "descargar_archivo sftp_client archivo backup_path router_name current_time w =
     (let nuevo_nombre_archivo = router_name @ ''_'' @ current_time @ ''_'' @ archivo;
          remoto = ''/'' @ archivo;
          destino = os_path_join backup_path nuevo_nombre_archivo;
          w1 = w\<lparr>pedidos := pedidos w @ [Get remoto destino]\<rparr>
      in case r_get sftp_client remoto destino of
           None \<Rightarrow>
             (None, anotar (Descargado archivo router_name)
                      (w1\<lparr>dir := escribir_local nuevo_nombre_archivo
                                    (r_hora sftp_client) (dir w1)\<rparr>))
         | Some e \<Rightarrow>
             (let w2 = w1\<lparr>dir := resto_local nuevo_nombre_archivo
                                     (r_hora sftp_client) (dir w1)\<rparr>
              in case manejar_descarga e archivo of
                   Some l \<Rightarrow> (None, anotar l w2)
                 | None \<Rightarrow> (Some e, w2)))"

subsection \<open>\<^verbatim>\<open>descargar_archivos\<close>\<close>

definition archivos_deseados :: "string list" where
  "archivos_deseados = [''latest.rsc'', ''latest.backup'']"

text \<open>The \<^verbatim>\<open>for\<close> loop of lines 110-120; an exception that leaves it ends it.\<close>

fun bucle_descargas ::
  "router \<Rightarrow> string list \<Rightarrow> string \<Rightarrow> string \<Rightarrow> string \<Rightarrow> string list \<Rightarrow> mundo
     \<Rightarrow> exn option \<times> mundo" where
  "bucle_descargas sftp_client archivos_remotos backup_path router_name current_time [] w =
     (None, w)"
| "bucle_descargas sftp_client archivos_remotos backup_path router_name current_time
       (archivo # resto) w =
     (if archivo \<in> set archivos_remotos then
        (case descargar_archivo sftp_client archivo backup_path router_name current_time w of
           (Some e, w') \<Rightarrow> (Some e, w')
         | (None, w') \<Rightarrow>
             bucle_descargas sftp_client archivos_remotos backup_path router_name
               current_time resto w')
      else
        bucle_descargas sftp_client archivos_remotos backup_path router_name current_time
          resto (anotar (Falta_en_router archivo router_name) w))"

text \<open>
  The body of the \<^verbatim>\<open>try\<close>, lines 104-120. Calling \<^verbatim>\<open>open_sftp\<close> on \<^verbatim>\<open>None\<close>
  raises \<^verbatim>\<open>AttributeError\<close>.
\<close>

definition intentar_descargas ::
  "router \<Rightarrow> sesion option \<Rightarrow> string \<Rightarrow> string \<Rightarrow> string \<Rightarrow> mundo \<Rightarrow> exn option \<times> mundo" where
  "intentar_descargas r ssh_client router_name backup_path current_time w =
     (case ssh_client of
        None \<Rightarrow> (Some OtherException, w)
      | Some _ \<Rightarrow>
          (case r_open_sftp r of
             Some e \<Rightarrow> (Some e, w)
           | None \<Rightarrow>
               (let w1 = w\<lparr>pedidos := pedidos w @ [Listdir ''.'']\<rparr>
                in case r_listdir r ''.'' of
                     Inl e \<Rightarrow> (Some e, w1)
                   | Inr archivos_remotos \<Rightarrow>
                       bucle_descargas r archivos_remotos backup_path router_name
                         current_time archivos_deseados w1)))"

text \<open>The \<^verbatim>\<open>except\<close> clauses of lines 122-133, tried in order.\<close>

definition manejar_router :: "exn \<Rightarrow> string \<Rightarrow> log_line option" where
  "manejar_router e router_name =
     (if is_SSHException e then Some (Router_ssh router_name)
      else if is_OSError e then Some (Router_sistema router_name)
      else None)"

text \<open>
  The \<^verbatim>\<open>try\<close> with its handlers, then the \<^verbatim>\<open>finally\<close> of lines 134-136, which
  closes the client when it is not \<^verbatim>\<open>None\<close>. The result is the exception that
  leaves the function (if any), the session object afterwards, and the shared state.
\<close>

definition descargar_archivos ::
  "router \<Rightarrow> sesion option \<Rightarrow> string \<Rightarrow> string \<Rightarrow> string \<Rightarrow> mundo
     \<Rightarrow> exn option \<times> sesion option \<times> mundo" where
  "descargar_archivos r ssh_client router_name backup_path current_time w =
     (let (x, w1) = intentar_descargas r ssh_client router_name backup_path current_time w;
          (x', w2) =
            (case x of
               None \<Rightarrow> (None, w1)
             | Some e \<Rightarrow>
                 (case manejar_router e router_name of
                    Some l \<Rightarrow> (None, anotar l w1)
                  | None \<Rightarrow> (Some e, w1)));
          ssh_client' =
            (case ssh_client of
               None \<Rightarrow> None
             | Some s \<Rightarrow> Some (s\<lparr>cierres := cierres s + 1\<rparr>))
      in (x', ssh_client', w2))"

subsection \<open>Names for what the downloads do\<close>

text \<open>
  The exceptions some handler of \<^verbatim>\<open>descargar_archivo\<close> and \<^verbatim>\<open>descargar_archivos\<close>
  names: the \<^verbatim>\<open>SSHException\<close>s and the \<^verbatim>\<open>OSError\<close>s.
\<close>

definition atrapable :: "exn \<Rightarrow> bool" where
  "atrapable e = (is_SSHException e \<or> is_OSError e)"

text \<open>The request line 78 sends for an allow-listed file.\<close>

definition peticion :: "string \<Rightarrow> string \<Rightarrow> string \<Rightarrow> string \<Rightarrow> sftp_op" where
  "peticion backup nombre fecha a =
     Get (''/'' @ a) (os_path_join backup (nombre @ ''_'' @ fecha @ ''_'' @ a))"

text \<open>
  What the loop logs for an allow-listed file, given the listing: the download, its
  failure when a handler takes it, or the warning that the router does not have the
  file.
\<close>

definition lineas_de ::
  "router \<Rightarrow> string list \<Rightarrow> string \<Rightarrow> string \<Rightarrow> string \<Rightarrow> string \<Rightarrow> log_line list" where
  "lineas_de r L backup nombre fecha a =
     (if a \<in> set L then
        (case r_get r (''/'' @ a) (os_path_join backup (nombre @ ''_'' @ fecha @ ''_'' @ a)) of
           None \<Rightarrow> [Descargado a nombre]
         | Some e \<Rightarrow> (case manejar_descarga e a of None \<Rightarrow> [] | Some l \<Rightarrow> [l]))
      else [Falta_en_router a nombre])"

subsection \<open>Remote paths\<close>

text \<open>
  How the SFTP server reads a path: an absolute path starts at the root, a relative
  one at the server's working directory; \<^verbatim>\<open>.\<close> and empty components name no
  further step.
\<close>

fun partir :: "string \<Rightarrow> string list" where
  "partir [] = [[]]"
| "partir (c # cs) =
     (if c = CHR ''/'' then [] # partir cs
      else (case partir cs of
              [] \<Rightarrow> [[c]]
            | x # xs \<Rightarrow> (c # x) # xs))"

definition componentes :: "string \<Rightarrow> string list" where
  "componentes p = filter (\<lambda>x. x \<noteq> [] \<and> x \<noteq> ''.'') (partir p)"

definition resolver :: "string list \<Rightarrow> string \<Rightarrow> string list" where
  "resolver cwd p = (if startswith p ''/'' then componentes p else cwd @ componentes p)"

text \<open>The directory a request reads: the one listed, or the one holding the file.\<close>

fun directorio_de :: "string list \<Rightarrow> sftp_op \<Rightarrow> string list" where
  "directorio_de cwd (Listdir p) = resolver cwd p"
| "directorio_de cwd (Get p _) = butlast (resolver cwd p)"

section \<open>The run: the main block and the worker pool\<close>

text \<open>
  What the run finds around it. \<open>rt_csv\<close> is what \<^verbatim>\<open>csv.reader\<close> yields from
  \<^verbatim>\<open>rt.csv\<close>, one item for each time the loop asks for a row: the fields of the row
  (\<open>Inr\<close>), or the exception the reader raises instead (\<open>Inl\<close>: \<^verbatim>\<open>csv.Error\<close>,
  \<^verbatim>\<open>UnicodeDecodeError\<close>), after which nothing more is read. It is \<open>None\<close> when
  \<^verbatim>\<open>open\<close> raises, and \<open>error_open\<close> is then the \<^verbatim>\<open>OSError\<close> it raises
  (\<^verbatim>\<open>FileNotFoundError\<close> for a missing file, \<^verbatim>\<open>PermissionError\<close>, or another
  one, as for a directory of that name). The rest: the working directory, which hosts
  accept a connection, what each router answers, the date stamp \<^verbatim>\<open>time.strftime\<close>
  gives and the clock \<^verbatim>\<open>time.time\<close> gives to the rotation.
\<close>

record entorno =
  rt_csv :: "(exn + string list) list option"
  error_open :: oserror
  cwd :: string
  connect :: "string \<Rightarrow> exn option"
  router_de :: "string \<Rightarrow> router"
  hoy :: string
  ahora :: real

subsection \<open>\<^verbatim>\<open>respaldar_router\<close>\<close>

definition respaldar_router ::
  "entorno \<Rightarrow> string \<Rightarrow> string \<Rightarrow> string \<Rightarrow> mundo \<Rightarrow> exn option \<times> sesion option \<times> mundo" where
  "respaldar_router env ip_address router_name backup_path w =
     (case conectar_ssh (connect env) ip_address (registro w) of
        (Some e, _, lg) \<Rightarrow> (Some e, None, w\<lparr>registro := lg\<rparr>)
      | (None, None, lg) \<Rightarrow> (None, None, w\<lparr>registro := lg\<rparr>)
      | (None, Some c, lg) \<Rightarrow>
          descargar_archivos (router_de env ip_address) (Some c) router_name backup_path
            (hoy env) (w\<lparr>registro := lg\<rparr>))"

subsection \<open>The state of a run\<close>

text \<open>
  A job is the pair of arguments \<^verbatim>\<open>(ip_router, nombre_router_interno)\<close> that
  \<^verbatim>\<open>executor.submit\<close> receives. A worker thread that runs a job is either inside
  \<^verbatim>\<open>conectar_ssh\<close> or past it, holding the session it returned.
\<close>

type_synonym trabajo = "string \<times> string"

datatype fase = Conectando | Conectado sesion

text \<open>
  Where the main thread is: in the \<^verbatim>\<open>for\<close> loop over the rows; leaving the
  \<^verbatim>\<open>with ThreadPoolExecutor\<close> block, which waits for the pool
  (\<^verbatim>\<open>shutdown(wait=True)\<close>) whether or not an exception is on its way out; about to
  call \<^verbatim>\<open>renombrar_backups_antiguos\<close> (line 204); or at the end of the script, with
  the exception that ended it, if any.
\<close>

datatype principal = Leyendo | Esperando "exn option" | Por_rotar | Terminado "exn option"

record estado =
  pc :: principal
  filas :: "(exn + string list) list"
  cola :: "trabajo list"
  activos :: "(trabajo \<times> fase) list"
  hechos :: "(trabajo \<times> sesion option) list"
  enviados :: "trabajo list"
  rotaciones :: "string list"
  compartido :: mundo

definition max_workers :: nat where
  "max_workers = 4"

text \<open>Line 190: a file that cannot be opened ends the script before the pool exists.\<close>

definition inicial :: "entorno \<Rightarrow> mundo \<Rightarrow> estado" where
  "inicial env w =
     \<lparr>pc = (case rt_csv env of
              None \<Rightarrow> Terminado (Some (OSError (error_open env)))
            | Some _ \<Rightarrow> Leyendo),
      filas = (case rt_csv env of None \<Rightarrow> [] | Some rows \<Rightarrow> rows),
      cola = [], activos = [], hechos = [], enviados = [], rotaciones = [],
      compartido = w\<rparr>"

text \<open>
  One step of the main thread. In the loop it asks the reader for the next row, which
  may raise, and submits the job of the row; \<^verbatim>\<open>fila[0]\<close> or \<^verbatim>\<open>fila[1]\<close> raises
  \<^verbatim>\<open>IndexError\<close> on a row with fewer than two fields. Waiting for the pool, it goes
  on only once no job is queued or running.
\<close>

definition paso_principal :: "entorno \<Rightarrow> estado \<Rightarrow> estado" where
  "paso_principal env s =
     (case pc s of
        Leyendo \<Rightarrow>
          (case filas s of
             [] \<Rightarrow> s\<lparr>pc := Esperando None\<rparr>
           | Inl e # resto \<Rightarrow> s\<lparr>pc := Esperando (Some e), filas := resto\<rparr>
           | Inr fila # resto \<Rightarrow>
               if length fila < 2 then s\<lparr>pc := Esperando (Some IndexError), filas := resto\<rparr>
               else s\<lparr>filas := resto,
                      cola := cola s @ [(fila ! 0, fila ! 1)],
                      enviados := enviados s @ [(fila ! 0, fila ! 1)]\<rparr>)
      | Esperando x \<Rightarrow>
          if cola s = [] \<and> activos s = [] then
            (case x of
               None \<Rightarrow> s\<lparr>pc := Por_rotar\<rparr>
             | Some e \<Rightarrow> s\<lparr>pc := Terminado (Some e)\<rparr>)
          else s
      | Por_rotar \<Rightarrow>
          (case renombrar_backups_antiguos (ahora env) (dir (compartido s)) of
             (d, lg) \<Rightarrow>
               s\<lparr>pc := Terminado None,
                 rotaciones := rotaciones s @ [cwd env],
                 compartido :=
                   (compartido s)\<lparr>dir := d, registro := registro (compartido s) @ lg\<rparr>\<rparr>)
      | Terminado _ \<Rightarrow> s)"

definition quitar :: "nat \<Rightarrow> 'a list \<Rightarrow> 'a list" where
  "quitar i xs = take i xs @ drop (Suc i) xs"

text \<open>A free worker thread takes the oldest queued job; the pool has \<open>max_workers\<close>.\<close>

definition paso_tomar :: "estado \<Rightarrow> estado" where
  "paso_tomar s =
     (case cola s of
        [] \<Rightarrow> s
      | t # q \<Rightarrow>
          if length (activos s) < max_workers
            then s\<lparr>cola := q, activos := activos s @ [(t, Conectando)]\<rparr>
          else s)"

text \<open>
  The \<open>i\<close>-th running job does line 180; with no session (\<^verbatim>\<open>None\<close> returned, or an
  exception on its way out) the job is over.
\<close>

definition paso_conectar :: "entorno \<Rightarrow> nat \<Rightarrow> estado \<Rightarrow> estado" where
  "paso_conectar env i s =
     (if i < length (activos s) then
        (case activos s ! i of
           (t, Conectando) \<Rightarrow>
             (case conectar_ssh (connect env) (fst t) (registro (compartido s)) of
                (None, Some c, lg) \<Rightarrow>
                  s\<lparr>activos := (activos s)[i := (t, Conectado c)],
                    compartido := (compartido s)\<lparr>registro := lg\<rparr>\<rparr>
              | (_, _, lg) \<Rightarrow>
                  s\<lparr>activos := quitar i (activos s),
                    hechos := hechos s @ [(t, None)],
                    compartido := (compartido s)\<lparr>registro := lg\<rparr>\<rparr>)
         | (t, Conectado c) \<Rightarrow> s)
      else s)"

text \<open>The \<open>i\<close>-th running job does lines 181-182, and is over.\<close>

definition paso_descargar :: "entorno \<Rightarrow> nat \<Rightarrow> estado \<Rightarrow> estado" where
  "paso_descargar env i s =
     (if i < length (activos s) then
        (case activos s ! i of
           (t, Conectando) \<Rightarrow> s
         | (t, Conectado c) \<Rightarrow>
             (case descargar_archivos (router_de env (fst t)) (Some c) (snd t) (cwd env)
                     (hoy env) (compartido s) of
                (x, c', w') \<Rightarrow>
                  s\<lparr>activos := quitar i (activos s),
                    hechos := hechos s @ [(t, c')],
                    compartido := w'\<rparr>))
      else s)"

text \<open>
  A schedule is the list of the steps taken, in order; a step that cannot be taken
  where it is asked for leaves the state as it is.
\<close>

datatype accion = Principal | Tomar | Conectar nat | Descargar nat

fun paso :: "entorno \<Rightarrow> estado \<Rightarrow> accion \<Rightarrow> estado" where
  "paso env s Principal = paso_principal env s"
| "paso env s Tomar = paso_tomar s"
| "paso env s (Conectar i) = paso_conectar env i s"
| "paso env s (Descargar i) = paso_descargar env i s"

definition ejecutar :: "entorno \<Rightarrow> accion list \<Rightarrow> estado \<Rightarrow> estado" where
  "ejecutar env acciones s = foldl (paso env) s acciones"

text \<open>The sessions open in a state: those of running and of finished jobs alike.\<close>

fun abierta_fase :: "trabajo \<times> fase \<Rightarrow> bool" where
  "abierta_fase (t, Conectando) = False"
| "abierta_fase (t, Conectado c) = (cierres c = 0)"

fun abierta_hecho :: "trabajo \<times> sesion option \<Rightarrow> bool" where
  "abierta_hecho (t, None) = False"
| "abierta_hecho (t, Some c) = (cierres c = 0)"

definition abiertas :: "estado \<Rightarrow> nat" where
  "abiertas s = length (filter abierta_fase (activos s)) + length (filter abierta_hecho (hechos s))"

subsection \<open>What holds of every state of a run\<close>

text \<open>
  No more jobs are running than the pool has threads, and no finished job has left a
  session open.
\<close>

definition acotado :: "estado \<Rightarrow> bool" where
  "acotado s = (length (activos s) \<le> max_workers \<and> filter abierta_hecho (hechos s) = [])"

text \<open>
  An item the loop can use is a row, with the two fields the loop reads.
\<close>

definition fila_ok :: "exn + string list \<Rightarrow> bool" where
  "fila_ok x = (case x of Inl e \<Rightarrow> False | Inr fila \<Rightarrow> 2 \<le> length fila)"

text \<open>
  What the loop of lines 194-201 does with the items it is given: the jobs it submits,
  in order, up to the first item it cannot use, and the exception that item ends it
  with (\<open>None\<close> when every item can be used).
\<close>

fun trabajos_de :: "(exn + string list) list \<Rightarrow> trabajo list" where
  "trabajos_de [] = []"
| "trabajos_de (Inl e # resto) = []"
| "trabajos_de (Inr fila # resto) =
     (if length fila < 2 then [] else (fila ! 0, fila ! 1) # trabajos_de resto)"

fun error_de_lectura :: "(exn + string list) list \<Rightarrow> exn option" where
  "error_de_lectura [] = None"
| "error_de_lectura (Inl e # resto) = Some e"
| "error_de_lectura (Inr fila # resto) =
     (if length fila < 2 then Some IndexError else error_de_lectura resto)"

text \<open>
  Every job submitted is queued, running or finished; once the main thread is past the
  wait for the pool nothing is queued or running; and the rotation has been called, on
  the working directory, exactly when the script has ended without an exception.
\<close>

definition en_orden :: "entorno \<Rightarrow> estado \<Rightarrow> bool" where
  "en_orden env s =
     (mset (enviados s) = mset (cola s) + mset (map fst (activos s)) + mset (map fst (hechos s))
      \<and> ((pc s = Por_rotar \<or> (\<exists>x. pc s = Terminado x)) \<longrightarrow> cola s = [] \<and> activos s = [])
      \<and> rotaciones s = (if pc s = Terminado None then [cwd env] else []))"

text \<open>
  How far the list has been read: in the loop, the jobs submitted are those of the
  items read so far, all of them usable; past it, those the loop submits for the whole
  list. The exception on its way out, and the one the script ends with, is the one the
  loop ends with; with no list file the script has ended with the error of
  \<^verbatim>\<open>open\<close> before it submitted anything.
\<close>

definition leido :: "entorno \<Rightarrow> estado \<Rightarrow> bool" where
  "leido env s =
     (case rt_csv env of
        None \<Rightarrow> pc s = Terminado (Some (OSError (error_open env))) \<and> enviados s = []
      | Some rows \<Rightarrow>
          (pc s = Leyendo \<longrightarrow>
             (\<exists>leidas. rows = leidas @ filas s \<and> list_all fila_ok leidas
                       \<and> enviados s = trabajos_de leidas))
          \<and> (pc s \<noteq> Leyendo \<longrightarrow> enviados s = trabajos_de rows)
          \<and> (\<forall>x. pc s = Esperando x \<or> pc s = Terminado x \<longrightarrow> x = error_de_lectura rows)
          \<and> (pc s = Por_rotar \<longrightarrow> error_de_lectura rows = None))"

text \<open>
  A schedule that ends every run: a running job goes on, else a free thread takes a
  queued job, else the main thread steps. Each such step lowers \<open>peso\<close>.
\<close>

fun rango :: "principal \<Rightarrow> nat" where
  "rango Leyendo = 3"
| "rango (Esperando _) = 2"
| "rango Por_rotar = 1"
| "rango (Terminado _) = 0"

fun peso_fase :: "trabajo \<times> fase \<Rightarrow> nat" where
  "peso_fase (t, Conectando) = 2"
| "peso_fase (t, Conectado c) = 1"

definition peso :: "estado \<Rightarrow> nat" where
  "peso s = 4 * length (filas s) + 3 * length (cola s) + sum_list (map peso_fase (activos s))
            + rango (pc s)"

definition siguiente :: "estado \<Rightarrow> accion" where
  "siguiente s =
     (case activos s of
        (t, Conectando) # _ \<Rightarrow> Conectar 0
      | (t, Conectado c) # _ \<Rightarrow> Descargar 0
      | [] \<Rightarrow> (if cola s = [] then Principal else Tomar))"

section \<open>Properties of the string operations\<close>

lemma startswith_prefix: "startswith s p \<longleftrightarrow> prefix p s"
  unfolding startswith_def
  by (metis append_take_drop_id prefixI prefix_def append_eq_conv_conj)

lemma endswith_suffix: "endswith s p \<longleftrightarrow> suffix p s"
  unfolding endswith_def
  by (metis append_take_drop_id suffixI suffix_def suffix_length_le length_append add_diff_cancel_right' append_eq_conv_conj)

lemma endswith_append [simp]: "endswith (s @ p) p"
  by (simp add: endswith_def)

lemma endswithE: "endswith s p \<Longrightarrow> \<exists>r. s = r @ p"
  by (auto simp: endswith_suffix suffix_def)

lemma prefix_crossing:
  assumes "prefix old (s @ t)" and "\<not> prefix old s" and "s \<noteq> []"
  shows "t \<noteq> [] \<and> hd t \<in> set (tl old)"
proof -
  from assms(1,2) obtain us where us: "old = s @ us" "prefix us t"
    by (auto simp: prefix_append)
  from us(1) assms(2) have ne: "us \<noteq> []" by auto
  with us(2) have t: "t \<noteq> []" "hd t = hd us" by (auto simp: prefix_def)
  from us(1) assms(3) have "tl old = tl s @ us" by simp
  with ne t show ?thesis by simp
qed

lemma str_replace_append:
  assumes "old \<noteq> []" and "t \<noteq> []" and "hd t \<notin> set (tl old)"
  shows "str_replace (s @ t) old new = str_replace s old new @ str_replace t old new"
proof (induction s rule: length_induct)
  case (1 s)
  show ?case
  proof (cases s)
    case Nil
    with assms(1) show ?thesis by simp
  next
    case (Cons c cs)
    show ?thesis
    proof (cases "prefix old s")
      case True
      then have le: "length old \<le> length s" by (rule prefix_length_le)
      from True have pre: "prefix old (s @ t)" by (simp add: prefix_prefix)
      from assms(1) Cons have "length (drop (length old) s) < length s" by simp
      with 1 have "str_replace (drop (length old) s @ t) old new
          = str_replace (drop (length old) s) old new @ str_replace t old new" by blast
      moreover from le have "drop (length old) (s @ t) = drop (length old) s @ t" by simp
      ultimately show ?thesis
        using True pre assms(1) Cons by (simp add: startswith_prefix del: Cons_prefix_Cons)
    next
      case False
      have np: "\<not> prefix old (s @ t)"
        using prefix_crossing[of old s t] False Cons assms(3) by auto
      from Cons have "length cs < length s" by simp
      with 1 have "str_replace (cs @ t) old new
          = str_replace cs old new @ str_replace t old new" by blast
      then show ?thesis
        using False np assms(1) Cons by (simp add: startswith_prefix del: Cons_prefix_Cons)
    qed
  qed
qed

lemma str_replace_absent:
  "old \<noteq> [] \<Longrightarrow> hd old \<notin> set s \<Longrightarrow> str_replace s old new = s"
proof (induction s)
  case Nil
  then show ?case by simp
next
  case (Cons c cs)
  then have "\<not> prefix old (c # cs)" by (cases old) auto
  with Cons show ?case by (simp add: startswith_prefix del: Cons_prefix_Cons)
qed

lemma nuevo_nombre_rsc: "nuevo_nombre (s @ ''.rsc'') = nuevo_nombre s @ ''-old.rsc''"
proof -
  have a: "str_replace (s @ ''.rsc'') ''.rsc'' ''-old.rsc''
             = str_replace s ''.rsc'' ''-old.rsc'' @ ''-old.rsc''"
    by (subst str_replace_append) (simp_all add: startswith_def)
  have b: "str_replace (r @ ''-old.rsc'') ''.backup'' ''-old.backup''
             = str_replace r ''.backup'' ''-old.backup'' @ ''-old.rsc''" for r
    by (subst str_replace_append) (simp_all add: startswith_def)
  show ?thesis by (simp only: nuevo_nombre_def a b)
qed

lemma nuevo_nombre_backup: "nuevo_nombre (s @ ''.backup'') = nuevo_nombre s @ ''-old.backup''"
proof -
  have a: "str_replace (s @ ''.backup'') ''.rsc'' ''-old.rsc''
             = str_replace s ''.rsc'' ''-old.rsc'' @ ''.backup''"
    by (subst str_replace_append) (simp_all add: startswith_def)
  have b: "str_replace (r @ ''.backup'') ''.backup'' ''-old.backup''
             = str_replace r ''.backup'' ''-old.backup'' @ ''-old.backup''" for r
    by (subst str_replace_append) (simp_all add: startswith_def)
  show ?thesis by (simp only: nuevo_nombre_def a b)
qed

lemma nuevo_nombre_sin_punto: "CHR ''.'' \<notin> set s \<Longrightarrow> nuevo_nombre s = s"
  by (simp add: nuevo_nombre_def str_replace_absent)

lemma es_candidato_cases:
  "es_candidato a \<Longrightarrow> (\<exists>r. a = r @ ''.rsc'') \<or> (\<exists>r. a = r @ ''.backup'')"
  unfolding es_candidato_def endswith_any_def
  by (auto dest: endswithE)

lemma nuevo_nombre_no_candidato: "es_candidato a \<Longrightarrow> \<not> es_candidato (nuevo_nombre a)"
proof -
  assume "es_candidato a"
  then consider r where "a = r @ ''.rsc''" | r where "a = r @ ''.backup''"
    using es_candidato_cases by blast
  then show ?thesis
  proof cases
    case 1
    then have "endswith (nuevo_nombre a) ''-old.rsc''"
      by (simp add: nuevo_nombre_rsc)
    then show ?thesis by (simp add: es_candidato_def endswith_any_def)
  next
    case 2
    then have "endswith (nuevo_nombre a) ''-old.backup''"
      by (simp add: nuevo_nombre_backup)
    then show ?thesis by (simp add: es_candidato_def endswith_any_def)
  qed
qed

section \<open>Properties of the rotation\<close>

lemmas evalua_rotacion =
  renombrar_backups_antiguos_def os_listdir_def rotar_uno_def es_candidato_def
  endswith_any_def endswith_def os_path_getctime_def os_rename_def antiguedad_dias_def
  DIAS_MAXIMOS_def nuevo_nombre_def startswith_def

lemma renombrados_append: "renombrados (xs @ ys) = renombrados xs @ renombrados ys"
  by (induction xs rule: renombrados.induct) auto

lemma renombrados_error [simp]: "renombrados [renombrar_error e x] = []"
  by (cases e) auto

lemma rotar_uno_renombra:
  assumes "se_renombra reloj d x"
  shows "rotar_uno reloj (d, lg) x =
     (d\<lparr>entradas := AList.update (nuevo_nombre x) (sello d (the (map_of (entradas d) x)))
                        (AList.delete x (entradas d))\<rparr>,
      lg @ [Renombrado x (nuevo_nombre x)])"
  using assms
  by (auto simp: se_renombra_def rotar_uno_def os_path_getctime_def os_rename_def
           split: option.splits)

lemma rotar_uno_quieto:
  assumes "\<not> se_renombra reloj d x"
  shows "fst (rotar_uno reloj (d, lg) x) = d"
    and "renombrados (snd (rotar_uno reloj (d, lg) x)) = renombrados lg"
  using assms
  by (auto simp: se_renombra_def rotar_uno_def os_path_getctime_def os_rename_def
        renombrados_append split: option.splits)

lemma rotar_uno_falla [simp]: "falla (fst (rotar_uno reloj (d, lg) x)) = falla d"
  by (cases "se_renombra reloj d x") (simp_all add: rotar_uno_renombra rotar_uno_quieto)

lemma rotar_uno_sello [simp]: "sello (fst (rotar_uno reloj (d, lg) x)) = sello d"
  by (cases "se_renombra reloj d x") (simp_all add: rotar_uno_renombra rotar_uno_quieto)

text \<open>A name that is a candidate is touched only by its own turn.\<close>

lemma rotar_uno_otro:
  assumes "es_candidato a" and "x \<noteq> a"
  shows "map_of (entradas (fst (rotar_uno reloj (d, lg) x))) a = map_of (entradas d) a"
proof (cases "se_renombra reloj d x")
  case True
  then have "es_candidato x" by (simp add: se_renombra_def)
  with assms(1) have "nuevo_nombre x \<noteq> a" using nuevo_nombre_no_candidato by blast
  with True assms(2) show ?thesis
    by (simp add: rotar_uno_renombra update_conv' delete_conv')
next
  case False
  then show ?thesis by (simp add: rotar_uno_quieto)
qed

lemma rotar_uno_propio:
  assumes "se_renombra reloj d x"
  shows "map_of (entradas (fst (rotar_uno reloj (d, lg) x))) x = None"
proof -
  from assms have "es_candidato x" by (simp add: se_renombra_def)
  then have "nuevo_nombre x \<noteq> x" using nuevo_nombre_no_candidato by force
  with assms show ?thesis
    by (simp add: rotar_uno_renombra update_conv' delete_conv')
qed

text \<open>After the loop, nothing in the directory is left to rename at the same clock reading.\<close>

lemma bucle_agota:
  assumes "\<forall>a. se_renombra reloj d a \<longrightarrow> a \<in> set xs"
  shows "\<not> se_renombra reloj (fst (foldl (rotar_uno reloj) (d, lg) xs)) a"
  using assms
proof (induction xs arbitrary: d lg)
  case Nil
  then show ?case by simp
next
  case (Cons x xs)
  obtain d' lg' where step: "rotar_uno reloj (d, lg) x = (d', lg')" by force
  have "\<forall>a. se_renombra reloj d' a \<longrightarrow> a \<in> set xs"
  proof (intro allI impI)
    fix b assume b: "se_renombra reloj d' b"
    have fd: "falla d' = falla d" using step rotar_uno_falla[of reloj d lg x] by simp
    from b have cb: "es_candidato b" by (simp add: se_renombra_def)
    show "b \<in> set xs"
    proof (cases "b = x")
      case True
      show ?thesis
      proof (cases "se_renombra reloj d x")
        case True
        with \<open>b = x\<close> step rotar_uno_propio[of reloj d x lg] b show ?thesis
          by (simp add: se_renombra_def)
      next
        case False
        with step rotar_uno_quieto(1)[of reloj d x lg] have "d' = d" by simp
        with b \<open>b = x\<close> False show ?thesis by simp
      qed
    next
      case False
      with cb step rotar_uno_otro[of b x reloj d lg]
      have "map_of (entradas d') b = map_of (entradas d) b" by simp
      with b fd have "se_renombra reloj d b" by (simp add: se_renombra_def)
      with Cons.prems False show ?thesis by auto
    qed
  qed
  from Cons.IH[OF this] step show ?case by simp
qed

lemma bucle_quieto:
  assumes "\<forall>a. \<not> se_renombra reloj d a"
  shows "fst (foldl (rotar_uno reloj) (d, lg) xs) = d
       \<and> renombrados (snd (foldl (rotar_uno reloj) (d, lg) xs)) = renombrados lg"
  using assms
proof (induction xs arbitrary: lg)
  case Nil
  then show ?case by simp
next
  case (Cons x xs)
  obtain lg' where "rotar_uno reloj (d, lg) x = (d, lg')" "renombrados lg' = renombrados lg"
    using rotar_uno_quieto[of reloj d x lg] Cons.prems by (metis prod.collapse)
  with Cons show ?case by simp
qed

lemma se_renombra_listado: "se_renombra reloj d a \<Longrightarrow> a \<in> set (os_listdir d)"
  by (auto simp: se_renombra_def os_listdir_def split: option.splits dest: map_of_SomeD)
     (metis fst_conv image_eqI map_of_SomeD)

lemma segunda_pasada_vacia:
  "renombrados (snd (renombrar_backups_antiguos reloj
      (fst (renombrar_backups_antiguos reloj d)))) = []"
proof -
  have "\<forall>a. \<not> se_renombra reloj (fst (renombrar_backups_antiguos reloj d)) a"
    unfolding renombrar_backups_antiguos_def
    using bucle_agota[of reloj d "os_listdir d" "[]"] se_renombra_listado by blast
  then show ?thesis
    unfolding renombrar_backups_antiguos_def[of reloj "fst _"]
    using bucle_quieto by simp
qed


lemma se_renombra_otro:
  assumes "es_candidato a" and "x \<noteq> a"
  shows "se_renombra reloj (fst (rotar_uno reloj (d, lg) x)) a = se_renombra reloj d a"
  using rotar_uno_otro[OF assms, of reloj d lg]
  by (simp add: se_renombra_def)

lemma renombrados_otro:
  assumes "x \<noteq> a"
  shows "(a, n) \<in> set (renombrados (snd (rotar_uno reloj (d, lg) x)))
           \<longleftrightarrow> (a, n) \<in> set (renombrados lg)"
  using assms
  by (cases "se_renombra reloj d x")
     (simp_all add: rotar_uno_renombra rotar_uno_quieto renombrados_append)

lemma bucle_renombrados:
  assumes "es_candidato a"
  shows "(a, n) \<in> set (renombrados (snd (foldl (rotar_uno reloj) (d, lg) xs)))
           \<longleftrightarrow> (a, n) \<in> set (renombrados lg)
               \<or> (a \<in> set xs \<and> se_renombra reloj d a \<and> n = nuevo_nombre a)"
proof (induction xs arbitrary: d lg)
  case Nil
  then show ?case by simp
next
  case (Cons x xs)
  obtain d' lg' where step: "rotar_uno reloj (d, lg) x = (d', lg')" by force
  note IH = Cons.IH[of d' lg']
  show ?case
  proof (cases "x = a")
    case False
    with se_renombra_otro[OF assms, of x reloj d lg] renombrados_otro[of x a n reloj d lg] step IH
    show ?thesis by auto
  next
    case True
    show ?thesis
    proof (cases "se_renombra reloj d a")
      case yes: True
      with True step rotar_uno_propio[of reloj d a lg]
      have "\<not> se_renombra reloj d' a" by (simp add: se_renombra_def)
      moreover from yes True step
      have "renombrados lg' = renombrados lg @ [(a, nuevo_nombre a)]"
        by (auto simp: rotar_uno_renombra renombrados_append)
      ultimately show ?thesis using IH True yes step by auto
    next
      case no: False
      with True step rotar_uno_quieto[of reloj d a lg]
      have "d' = d" "renombrados lg' = renombrados lg" by simp_all
      with IH True no step show ?thesis by auto
    qed
  qed
qed

lemma bucle_entrada:
  assumes "es_candidato a"
  shows "map_of (entradas (fst (foldl (rotar_uno reloj) (d, lg) xs))) a
           = (if a \<in> set xs \<and> se_renombra reloj d a then None else map_of (entradas d) a)"
proof (induction xs arbitrary: d lg)
  case Nil
  then show ?case by simp
next
  case (Cons x xs)
  obtain d' lg' where step: "rotar_uno reloj (d, lg) x = (d', lg')" by force
  note IH = Cons.IH[of d' lg']
  show ?case
  proof (cases "x = a")
    case False
    with se_renombra_otro[OF assms, of x reloj d lg] rotar_uno_otro[OF assms, of x reloj d lg] step IH
    show ?thesis by auto
  next
    case True
    show ?thesis
    proof (cases "se_renombra reloj d a")
      case yes: True
      with True step rotar_uno_propio[of reloj d a lg]
      have "\<not> se_renombra reloj d' a" "map_of (entradas d') a = None"
        by (simp_all add: se_renombra_def)
      then show ?thesis using IH True yes step by auto
    next
      case no: False
      with True step rotar_uno_quieto[of reloj d a lg]
      have "d' = d" by simp
      with IH True no step show ?thesis by auto
    qed
  qed
qed

lemma renombrados_origen:
  "(a, n) \<in> set (renombrados (snd (foldl (rotar_uno reloj) (d, lg) xs)))
     \<Longrightarrow> (a, n) \<in> set (renombrados lg) \<or> (es_candidato a \<and> n = nuevo_nombre a)"
proof (induction xs arbitrary: d lg)
  case Nil
  then show ?case by simp
next
  case (Cons x xs)
  obtain d' lg' where step: "rotar_uno reloj (d, lg) x = (d', lg')" by force
  with Cons.prems have "(a, n) \<in> set (renombrados (snd (foldl (rotar_uno reloj) (d', lg') xs)))"
    by simp
  from Cons.IH[OF this]
  consider "(a, n) \<in> set (renombrados lg')" | "es_candidato a \<and> n = nuevo_nombre a" by blast
  then show ?case
  proof cases
    case 1
    show ?thesis
    proof (cases "se_renombra reloj d x")
      case True
      with step have "renombrados lg' = renombrados lg @ [(x, nuevo_nombre x)]"
        by (auto simp: rotar_uno_renombra renombrados_append)
      with 1 True show ?thesis by (auto simp: se_renombra_def)
    next
      case False
      with step rotar_uno_quieto(2)[of reloj d x lg] 1 show ?thesis by simp
    qed
  next
    case 2
    then show ?thesis by simp
  qed
qed

lemma bucle_falla [simp]: "falla (fst (foldl (rotar_uno reloj) (d, lg) xs)) = falla d"
proof (induction xs arbitrary: d lg)
  case Nil
  then show ?case by simp
next
  case (Cons x xs)
  obtain d' lg' where step: "rotar_uno reloj (d, lg) x = (d', lg')" by force
  with rotar_uno_falla[of reloj d lg x] have "falla d' = falla d" by simp
  with Cons.IH[of d' lg'] step show ?case by simp
qed

lemma segunda_pasada:
  "(a, n) \<in> set (renombrados (snd (renombrar_backups_antiguos despues
                   (fst (renombrar_backups_antiguos reloj d)))))
     \<longleftrightarrow> n = nuevo_nombre a \<and> se_renombra despues d a \<and> \<not> se_renombra reloj d a"
proof (cases "es_candidato a")
  case False
  have "(a, n) \<notin> set (renombrados (snd (renombrar_backups_antiguos despues
                   (fst (renombrar_backups_antiguos reloj d)))))"
    unfolding renombrar_backups_antiguos_def[of despues]
    using renombrados_origen[of a n despues _ "[]"] False by auto
  with False show ?thesis by (simp add: se_renombra_def)
next
  case True
  let ?d1 = "fst (renombrar_backups_antiguos reloj d)"
  have e: "map_of (entradas ?d1) a
      = (if a \<in> set (os_listdir d) \<and> se_renombra reloj d a then None else map_of (entradas d) a)"
    unfolding renombrar_backups_antiguos_def by (rule bucle_entrada[OF True])
  have f: "falla ?d1 = falla d" unfolding renombrar_backups_antiguos_def by simp
  have s1: "se_renombra despues ?d1 a \<longleftrightarrow> se_renombra despues d a \<and> \<not> se_renombra reloj d a"
  proof (cases "se_renombra reloj d a")
    case yes: True
    then have "a \<in> set (os_listdir d)" by (rule se_renombra_listado)
    with yes e show ?thesis by (simp add: se_renombra_def)
  next
    case no: False
    with e have m: "map_of (entradas ?d1) a = map_of (entradas d) a" by simp
    have "se_renombra despues ?d1 a \<longleftrightarrow> se_renombra despues d a"
      unfolding se_renombra_def using m f by simp
    with no show ?thesis by simp
  qed
  have "(a, n) \<in> set (renombrados (snd (renombrar_backups_antiguos despues ?d1)))
      \<longleftrightarrow> a \<in> set (os_listdir ?d1) \<and> se_renombra despues ?d1 a \<and> n = nuevo_nombre a"
    unfolding renombrar_backups_antiguos_def[of despues]
    using bucle_renombrados[OF True, of n despues ?d1 "[]" "os_listdir ?d1"] by simp
  also have "\<dots> \<longleftrightarrow> se_renombra despues ?d1 a \<and> n = nuevo_nombre a"
    using se_renombra_listado[of despues ?d1 a] by blast
  finally show ?thesis using s1 by blast
qed

text \<open>
  Claim C2 says a second run renames nothing, whatever the directory. Each run reads
  the clock for itself (line 146): a file that is exactly \<open>DIAS_MAXIMOS\<close> days old at
  the first run is left as it is, and a second run one second later renames it.
\<close>

theorem segunda_pasada_renombra:
  "renombrados (snd (renombrar_backups_antiguos 518400
       \<lparr>entradas = [(''a.rsc'', 0)], falla = (\<lambda>_. None), sello = (\<lambda>t. t)\<rparr>)) = []
   \<and> entradas (fst (renombrar_backups_antiguos 518400
       \<lparr>entradas = [(''a.rsc'', 0)], falla = (\<lambda>_. None), sello = (\<lambda>t. t)\<rparr>))
       = [(''a.rsc'', 0)]
   \<and> renombrados (snd (renombrar_backups_antiguos 518401
       (fst (renombrar_backups_antiguos 518400
          \<lparr>entradas = [(''a.rsc'', 0)], falla = (\<lambda>_. None), sello = (\<lambda>t. t)\<rparr>))))
       = [(''a.rsc'', ''a-old.rsc'')]"
  by (simp add: evalua_rotacion)

text \<open>
  Claim C2, with the clock of each run. The second run, at clock reading \<open>despues\<close>,
  renames exactly the candidate entries of the directory that the first run, at
  \<open>reloj\<close>, found no older than \<open>DIAS_MAXIMOS\<close> days and that are older at
  \<open>despues\<close> (the operating system refusing neither call). So a second run at the
  same clock reading renames nothing; and every name the first run gave ends in
  \<^verbatim>\<open>-old.rsc\<close> or \<^verbatim>\<open>-old.backup\<close>, is not a candidate, and is renamed by no
  second run at whatever clock reading.
\<close>

theorem rotacion_repetida:
  "((a, n) \<in> set (renombrados (snd (renombrar_backups_antiguos despues
                    (fst (renombrar_backups_antiguos reloj d)))))
      \<longleftrightarrow> es_candidato a \<and> n = nuevo_nombre a
          \<and> falla d (Getctime a) = None \<and> falla d (Rename a (nuevo_nombre a)) = None
          \<and> (\<exists>fecha. map_of (entradas d) a = Some fecha
                \<and> antiguedad_dias reloj fecha \<le> DIAS_MAXIMOS
                \<and> DIAS_MAXIMOS < antiguedad_dias despues fecha))
   \<and> renombrados (snd (renombrar_backups_antiguos reloj
        (fst (renombrar_backups_antiguos reloj d)))) = []
   \<and> (\<forall>b m. (b, m) \<in> set (renombrados (snd (renombrar_backups_antiguos reloj d))) \<longrightarrow>
         endswith_any m [''-old.rsc'', ''-old.backup''] \<and> \<not> es_candidato m
         \<and> m \<notin> fst ` set (renombrados (snd (renombrar_backups_antiguos despues
                 (fst (renombrar_backups_antiguos reloj d))))))"
proof (intro conjI allI impI)
  show "(a, n) \<in> set (renombrados (snd (renombrar_backups_antiguos despues
                    (fst (renombrar_backups_antiguos reloj d)))))
      \<longleftrightarrow> es_candidato a \<and> n = nuevo_nombre a
          \<and> falla d (Getctime a) = None \<and> falla d (Rename a (nuevo_nombre a)) = None
          \<and> (\<exists>fecha. map_of (entradas d) a = Some fecha
                \<and> antiguedad_dias reloj fecha \<le> DIAS_MAXIMOS
                \<and> DIAS_MAXIMOS < antiguedad_dias despues fecha)"
    unfolding segunda_pasada
    by (auto simp: se_renombra_def split: option.splits)
next
  show "renombrados (snd (renombrar_backups_antiguos reloj
      (fst (renombrar_backups_antiguos reloj d)))) = []"
    by (rule segunda_pasada_vacia)
next
  fix b m
  assume "(b, m) \<in> set (renombrados (snd (renombrar_backups_antiguos reloj d)))"
  then have bm: "es_candidato b" "m = nuevo_nombre b"
    unfolding renombrar_backups_antiguos_def using renombrados_origen[of b m reloj d "[]"] by auto
  then show nc: "\<not> es_candidato m" using nuevo_nombre_no_candidato by simp
  from bm obtain r where "b = r @ ''.rsc'' \<or> b = r @ ''.backup''"
    using es_candidato_cases by blast
  with bm(2) show "endswith_any m [''-old.rsc'', ''-old.backup'']"
    by (auto simp: endswith_any_def nuevo_nombre_rsc nuevo_nombre_backup)
  show "m \<notin> fst ` set (renombrados (snd (renombrar_backups_antiguos despues
                 (fst (renombrar_backups_antiguos reloj d)))))"
  proof
    assume "m \<in> fst ` set (renombrados (snd (renombrar_backups_antiguos despues
                 (fst (renombrar_backups_antiguos reloj d)))))"
    then obtain k where "(m, k) \<in> set (renombrados (snd (renombrar_backups_antiguos despues
                 (fst (renombrar_backups_antiguos reloj d)))))" by force
    then have "es_candidato m" by (simp add: segunda_pasada se_renombra_def)
    with nc show False by simp
  qed
qed

theorem rotacion_repetida_witness:
  "(''a.rsc'', ''a-old.rsc'') \<in> set (renombrados (snd (renombrar_backups_antiguos 604800
       \<lparr>entradas = [(''a.rsc'', 0), (''b.backup'', 600000)], falla = (\<lambda>_. None), sello = (\<lambda>t. t)\<rparr>)))
   \<and> \<not> es_candidato ''a-old.rsc''
   \<and> ''a-old.rsc'' \<notin> fst ` set (renombrados (snd (renombrar_backups_antiguos 1209600
        (fst (renombrar_backups_antiguos 604800
       \<lparr>entradas = [(''a.rsc'', 0), (''b.backup'', 600000)], falla = (\<lambda>_. None), sello = (\<lambda>t. t)\<rparr>)))))
   \<and> (''b.backup'', ''b-old.backup'') \<in> set (renombrados (snd (renombrar_backups_antiguos 1209600
        (fst (renombrar_backups_antiguos 604800
       \<lparr>entradas = [(''a.rsc'', 0), (''b.backup'', 600000)], falla = (\<lambda>_. None), sello = (\<lambda>t. t)\<rparr>)))))
   \<and> renombrados (snd (renombrar_backups_antiguos 604800
        (fst (renombrar_backups_antiguos 604800
       \<lparr>entradas = [(''a.rsc'', 0), (''b.backup'', 600000)], falla = (\<lambda>_. None), sello = (\<lambda>t. t)\<rparr>)))) = []"
proof -
  let ?d = "\<lparr>entradas = [(''a.rsc'', 0), (''b.backup'', 600000)], falla = (\<lambda>_. None), sello = (\<lambda>t. t)\<rparr>"
  have r: "(''a.rsc'', ''a-old.rsc'') \<in> set (renombrados (snd (renombrar_backups_antiguos 604800 ?d)))"
    by (simp add: evalua_rotacion)
  have c: "es_candidato ''b.backup''"
    by (simp add: es_candidato_def endswith_any_def endswith_def)
  have n: "nuevo_nombre ''b.backup'' = ''b-old.backup''"
    by (simp add: nuevo_nombre_def startswith_def)
  have e: "\<exists>fecha. map_of (entradas ?d) ''b.backup'' = Some fecha
                \<and> antiguedad_dias 604800 fecha \<le> DIAS_MAXIMOS
                \<and> DIAS_MAXIMOS < antiguedad_dias 1209600 fecha"
    by (simp add: antiguedad_dias_def DIAS_MAXIMOS_def)
  have f: "falla ?d (Getctime ''b.backup'') = None"
    "falla ?d (Rename ''b.backup'' (nuevo_nombre ''b.backup'')) = None" by simp_all
  note t = rotacion_repetida[of "''b.backup''" "''b-old.backup''" 1209600 604800 ?d]
  have rhs: "es_candidato ''b.backup'' \<and> ''b-old.backup'' = nuevo_nombre ''b.backup''
          \<and> falla ?d (Getctime ''b.backup'') = None
          \<and> falla ?d (Rename ''b.backup'' (nuevo_nombre ''b.backup'')) = None
          \<and> (\<exists>fecha. map_of (entradas ?d) ''b.backup'' = Some fecha
                \<and> antiguedad_dias 604800 fecha \<le> DIAS_MAXIMOS
                \<and> DIAS_MAXIMOS < antiguedad_dias 1209600 fecha)"
    using c n[symmetric] e f by blast
  have b: "(''b.backup'', ''b-old.backup'') \<in> set (renombrados (snd
      (renombrar_backups_antiguos 1209600 (fst (renombrar_backups_antiguos 604800 ?d)))))"
    by (rule iffD2[OF t[THEN conjunct1] rhs])
  note t2 = t[THEN conjunct2, THEN conjunct1]
  note t3 = t[THEN conjunct2, THEN conjunct2, rule_format, OF r]
  from t3 have "\<not> es_candidato ''a-old.rsc''"
    and "''a-old.rsc'' \<notin> fst ` set (renombrados (snd (renombrar_backups_antiguos 1209600
        (fst (renombrar_backups_antiguos 604800 ?d)))))" by simp_all
  with r b t2 show ?thesis by simp
qed



section \<open>The names of fetched and rotated files\<close>

text \<open>
  Claim C4 says the marker \<^verbatim>\<open>-old\<close> is put once, before the final extension, and
  nothing else of the name changes. \<^verbatim>\<open>str.replace\<close> replaces every occurrence: for
  the backup of a router called \<^verbatim>\<open>sw1.backup\<close> the run puts the marker twice, and
  the name it gives is not the name with the marker before the final extension only.
\<close>

theorem marcador_en_cada_aparicion:
  "es_candidato ''sw1.backup_20240101_latest.rsc''
   \<and> renombrados (snd (renombrar_backups_antiguos 604800
         \<lparr>entradas = [(''sw1.backup_20240101_latest.rsc'', 0)],
          falla = (\<lambda>_. None), sello = (\<lambda>t. t)\<rparr>))
       = [(''sw1.backup_20240101_latest.rsc'', ''sw1-old.backup_20240101_latest-old.rsc'')]
   \<and> nuevo_nombre ''sw1.backup_20240101_latest.rsc'' \<noteq> ''sw1.backup_20240101_latest-old.rsc''"
  by (simp add: evalua_rotacion)

text \<open>
  Claim C5 says the file fetched as \<^verbatim>\<open>latest.rsc\<close> for router \<open>R\<close> on date \<open>D\<close>
  is rotated to \<^verbatim>\<open>R_D_latest-old.rsc\<close>. For the router name \<^verbatim>\<open>gw.rsc\<close> the file
  is written as \<^verbatim>\<open>gw.rsc_20240101_latest.rsc\<close>, as claimed, and rotated to
  \<^verbatim>\<open>gw-old.rsc_20240101_latest-old.rsc\<close>: the same replacement of every occurrence.
\<close>

theorem ida_y_vuelta_con_punto:
  "entradas (dir (snd (descargar_archivo
       \<lparr>r_open_sftp = None, r_listdir = (\<lambda>_. Inr [''latest.rsc'']),
        r_get = (\<lambda>_ _. None), r_cwd = [], r_hora = 0\<rparr>
       ''latest.rsc'' ''/srv'' ''gw.rsc'' ''20240101''
       \<lparr>registro = [], dir = \<lparr>entradas = [], falla = (\<lambda>_. None), sello = (\<lambda>t. t)\<rparr>,
        pedidos = []\<rparr>)))
     = [(''gw.rsc_20240101_latest.rsc'', 0)]
   \<and> renombrados (snd (renombrar_backups_antiguos 604800
         \<lparr>entradas = [(''gw.rsc_20240101_latest.rsc'', 0)],
          falla = (\<lambda>_. None), sello = (\<lambda>t. t)\<rparr>))
       = [(''gw.rsc_20240101_latest.rsc'', ''gw-old.rsc_20240101_latest-old.rsc'')]"
  by (simp add: evalua_rotacion descargar_archivo_def manejar_descarga_def os_path_join_def anotar_def Let_def
        escribir_local_def)

text \<open>
  Where the names hold no further dot, both steps give the names the naming convention
  describes.
\<close>

lemma nombre_local:
  "r_get r (''/'' @ archivo) (os_path_join backup (nombre @ ''_'' @ fecha @ ''_'' @ archivo)) = None
   \<Longrightarrow> CHR ''/'' \<notin> set (nombre @ fecha @ archivo)
   \<Longrightarrow> map_of (entradas (dir (snd (descargar_archivo r archivo backup nombre fecha w))))
         (nombre @ ''_'' @ fecha @ ''_'' @ archivo) = Some (r_hora r)"
  by (simp add: descargar_archivo_def anotar_def escribir_local_def update_conv' Let_def)

lemma rotado_sin_punto:
  assumes "CHR ''.'' \<notin> set nombre" and "CHR ''.'' \<notin> set fecha"
  shows "nuevo_nombre (nombre @ ''_'' @ fecha @ ''_latest.rsc'')
           = nombre @ ''_'' @ fecha @ ''_latest-old.rsc''"
proof -
  have "nuevo_nombre ((nombre @ ''_'' @ fecha @ ''_latest'') @ ''.rsc'')
          = nuevo_nombre (nombre @ ''_'' @ fecha @ ''_latest'') @ ''-old.rsc''"
    by (rule nuevo_nombre_rsc)
  moreover have "nuevo_nombre (nombre @ ''_'' @ fecha @ ''_latest'')
          = nombre @ ''_'' @ fecha @ ''_latest''"
    using assms by (intro nuevo_nombre_sin_punto) simp
  ultimately show ?thesis by simp
qed

section \<open>Properties of the downloads\<close>

lemma manejar_descarga_None: "manejar_descarga e a = None \<longleftrightarrow> \<not> atrapable e"
  by (cases e) (auto simp: manejar_descarga_def atrapable_def)

lemma manejar_router_None: "manejar_router e n = None \<longleftrightarrow> \<not> atrapable e"
  by (cases e) (auto simp: manejar_router_def atrapable_def)

lemma descargar_archivo_pedidos:
  "pedidos (snd (descargar_archivo r a backup nombre fecha w))
     = pedidos w @ [peticion backup nombre fecha a]"
  by (simp add: descargar_archivo_def Let_def anotar_def peticion_def
           split: option.splits)

lemma descargar_archivo_sale:
  "fst (descargar_archivo r a backup nombre fecha w) = Some e \<Longrightarrow> \<not> atrapable e"
  by (auto simp: descargar_archivo_def Let_def manejar_descarga_None split: option.splits)

lemma descargar_archivo_atrapa:
  "\<forall>p q e. r_get r p q = Some e \<longrightarrow> atrapable e
     \<Longrightarrow> fst (descargar_archivo r a backup nombre fecha w) = None"
  using descargar_archivo_sale[of r a backup nombre fecha w]
  by (cases "fst (descargar_archivo r a backup nombre fecha w)")
     (auto simp: descargar_archivo_def Let_def manejar_descarga_None split: option.splits)

lemma bucle_pedidos:
  "\<exists>k. pedidos (snd (bucle_descargas r L backup nombre fecha fs w))
     = pedidos w @ take k (map (peticion backup nombre fecha) (filter (\<lambda>a. a \<in> set L) fs))"
proof (induction fs arbitrary: w)
  case Nil
  then show ?case by simp
next
  case (Cons a fs)
  show ?case
  proof (cases "a \<in> set L")
    case False
    from Cons.IH[of "anotar (Falta_en_router a nombre) w"] False
    show ?thesis by (simp add: anotar_def)
  next
    case True
    obtain x w' where d: "descargar_archivo r a backup nombre fecha w = (x, w')" by force
    then have pw: "pedidos w' = pedidos w @ [peticion backup nombre fecha a]"
      using descargar_archivo_pedidos[of r a backup nombre fecha w] by simp
    show ?thesis
    proof (cases x)
      case (Some e)
      with d True pw have "pedidos (snd (bucle_descargas r L backup nombre fecha (a # fs) w))
        = pedidos w @ take 1 (map (peticion backup nombre fecha) (filter (\<lambda>a. a \<in> set L) (a # fs)))"
        by simp
      then show ?thesis by blast
    next
      case None
      from Cons.IH[of w'] obtain k where
        "pedidos (snd (bucle_descargas r L backup nombre fecha fs w'))
           = pedidos w' @ take k (map (peticion backup nombre fecha) (filter (\<lambda>a. a \<in> set L) fs))"
        by blast
      with d True pw None
      have "pedidos (snd (bucle_descargas r L backup nombre fecha (a # fs) w))
        = pedidos w @ take (Suc k) (map (peticion backup nombre fecha) (filter (\<lambda>a. a \<in> set L) (a # fs)))"
        by simp
      then show ?thesis by blast
    qed
  qed
qed

lemma bucle_completo:
  "fst (bucle_descargas r L backup nombre fecha fs w) = None \<Longrightarrow>
   pedidos (snd (bucle_descargas r L backup nombre fecha fs w))
     = pedidos w @ map (peticion backup nombre fecha) (filter (\<lambda>a. a \<in> set L) fs)"
proof (induction fs arbitrary: w)
  case Nil
  then show ?case by simp
next
  case (Cons a fs)
  show ?case
  proof (cases "a \<in> set L")
    case False
    with Cons.prems Cons.IH[of "anotar (Falta_en_router a nombre) w"]
    show ?thesis by (simp add: anotar_def)
  next
    case True
    obtain x w' where d: "descargar_archivo r a backup nombre fecha w = (x, w')" by force
    then have pw: "pedidos w' = pedidos w @ [peticion backup nombre fecha a]"
      using descargar_archivo_pedidos[of r a backup nombre fecha w] by simp
    from Cons.prems d True have x: "x = None" by (cases x) auto
    with Cons.prems d True have "fst (bucle_descargas r L backup nombre fecha fs w') = None" by simp
    from Cons.IH[OF this] d True x pw show ?thesis by simp
  qed
qed

lemma bucle_sale:
  "fst (bucle_descargas r L backup nombre fecha fs w) = Some e \<Longrightarrow> \<not> atrapable e"
proof (induction fs arbitrary: w)
  case Nil
  then show ?case by simp
next
  case (Cons a fs)
  show ?case
  proof (cases "a \<in> set L")
    case False
    with Cons show ?thesis by simp
  next
    case True
    obtain x w' where d: "descargar_archivo r a backup nombre fecha w = (x, w')" by force
    show ?thesis
    proof (cases x)
      case None
      with Cons d True show ?thesis by simp
    next
      case (Some e')
      with Cons.prems d True have "e' = e" by simp
      with Some d descargar_archivo_sale[of r a backup nombre fecha w e] show ?thesis by simp
    qed
  qed
qed

lemma bucle_atrapa:
  "\<forall>p q e. r_get r p q = Some e \<longrightarrow> atrapable e
     \<Longrightarrow> fst (bucle_descargas r L backup nombre fecha fs w) = None"
proof (induction fs arbitrary: w)
  case Nil
  then show ?case by simp
next
  case (Cons a fs)
  obtain x w' where d: "descargar_archivo r a backup nombre fecha w = (x, w')" by force
  with descargar_archivo_atrapa[OF Cons.prems, of a backup nombre fecha w] have "x = None" by simp
  with Cons d show ?case by simp
qed


lemma descargar_archivo_registro:
  "registro (snd (descargar_archivo r a backup nombre fecha w))
     = registro w @
       (case r_get r (''/'' @ a) (os_path_join backup (nombre @ ''_'' @ fecha @ ''_'' @ a)) of
          None \<Rightarrow> [Descargado a nombre]
        | Some e \<Rightarrow> (case manejar_descarga e a of None \<Rightarrow> [] | Some l \<Rightarrow> [l]))"
  by (simp add: descargar_archivo_def Let_def anotar_def split: option.splits)

lemma bucle_registro:
  assumes "\<forall>p q e. r_get r p q = Some e \<longrightarrow> atrapable e"
  shows "registro (snd (bucle_descargas r L backup nombre fecha fs w))
     = registro w @ concat (map (lineas_de r L backup nombre fecha) fs)"
proof (induction fs arbitrary: w)
  case Nil
  then show ?case by simp
next
  case (Cons a fs)
  show ?case
  proof (cases "a \<in> set L")
    case False
    with Cons.IH[of "anotar (Falta_en_router a nombre) w"]
    show ?thesis by (simp add: anotar_def lineas_de_def)
  next
    case True
    obtain x w' where d: "descargar_archivo r a backup nombre fecha w = (x, w')" by force
    with descargar_archivo_atrapa[OF assms, of a backup nombre fecha w] have x: "x = None" by simp
    have "registro w' = registro w @ lineas_de r L backup nombre fecha a"
      using d True descargar_archivo_registro[of r a backup nombre fecha w]
      by (simp add: lineas_de_def)
    with Cons.IH[of w'] d True x show ?thesis by simp
  qed
qed

lemma descargar_archivos_sale:
  "fst (descargar_archivos r ssh nombre backup fecha w) = Some e \<Longrightarrow> \<not> atrapable e"
  by (auto simp: descargar_archivos_def Let_def manejar_router_None
           split: prod.splits option.splits)

lemmas evalua_descargas =
  descargar_archivos_def intentar_descargas_def descargar_archivo_def manejar_descarga_def
  manejar_router_def archivos_deseados_def os_path_join_def startswith_def endswith_def
  anotar_def escribir_local_def peticion_def lineas_de_def atrapable_def Let_def

text \<open>
  Claim C7 says \<^verbatim>\<open>descargar_archivos\<close> returns normally whatever the listing and
  the transfers do. Its handlers name \<^verbatim>\<open>SSHException\<close> and \<^verbatim>\<open>OSError\<close> only: an
  exception of another class raised by the listing leaves the function, and one raised
  by the transfer of the first file leaves it before the second file is asked for.
\<close>

theorem fallos_no_atrapados:
  "fst (descargar_archivos
      \<lparr>r_open_sftp = None, r_listdir = (\<lambda>_. Inl OtherException),
       r_get = (\<lambda>_ _. None), r_cwd = [], r_hora = 0\<rparr>
      (Some \<lparr>host = ''10.0.0.1'', cierres = 0\<rparr>) ''edge1'' ''/srv'' ''20240101''
      \<lparr>registro = [], dir = \<lparr>entradas = [], falla = (\<lambda>_. None), sello = (\<lambda>t. t)\<rparr>,
       pedidos = []\<rparr>) = Some OtherException
   \<and> fst (descargar_archivos
      \<lparr>r_open_sftp = None, r_listdir = (\<lambda>_. Inr [''latest.rsc'', ''latest.backup'']),
       r_get = (\<lambda>p _. if p = ''/latest.rsc'' then Some OtherException else None),
       r_cwd = [], r_hora = 0\<rparr>
      (Some \<lparr>host = ''10.0.0.1'', cierres = 0\<rparr>) ''edge1'' ''/srv'' ''20240101''
      \<lparr>registro = [], dir = \<lparr>entradas = [], falla = (\<lambda>_. None), sello = (\<lambda>t. t)\<rparr>,
       pedidos = []\<rparr>) = Some OtherException
   \<and> pedidos (snd (snd (descargar_archivos
      \<lparr>r_open_sftp = None, r_listdir = (\<lambda>_. Inr [''latest.rsc'', ''latest.backup'']),
       r_get = (\<lambda>p _. if p = ''/latest.rsc'' then Some OtherException else None),
       r_cwd = [], r_hora = 0\<rparr>
      (Some \<lparr>host = ''10.0.0.1'', cierres = 0\<rparr>) ''edge1'' ''/srv'' ''20240101''
      \<lparr>registro = [], dir = \<lparr>entradas = [], falla = (\<lambda>_. None), sello = (\<lambda>t. t)\<rparr>,
       pedidos = []\<rparr>)))
     = [Listdir ''.'', Get ''/latest.rsc'' ''/srv/edge1_20240101_latest.rsc'']"
  by (simp add: evalua_descargas)

text \<open>
  Claim C7, for the failures the handlers name. When every failure of the router is an
  \<^verbatim>\<open>SSHException\<close> or an \<^verbatim>\<open>OSError\<close>, the function returns normally; a failure to
  open the SFTP channel or to list is logged in one line; and after a listing every
  allow-listed file of the listing is asked for and every allow-listed file gets its
  own log line, whatever happened to the other file.
\<close>

theorem fallos_atrapados:
  assumes "\<forall>e. r_open_sftp r = Some e \<longrightarrow> atrapable e"
    and "\<forall>e. r_listdir r ''.'' = Inl e \<longrightarrow> atrapable e"
    and "\<forall>p q e. r_get r p q = Some e \<longrightarrow> atrapable e"
  shows "fst (descargar_archivos r (Some c) nombre backup fecha w) = None
    \<and> (\<forall>e. r_open_sftp r = Some e \<longrightarrow>
          (\<exists>l. manejar_router e nombre = Some l
             \<and> registro (snd (snd (descargar_archivos r (Some c) nombre backup fecha w)))
                 = registro w @ [l]))
    \<and> (\<forall>e. r_open_sftp r = None \<and> r_listdir r ''.'' = Inl e \<longrightarrow>
          (\<exists>l. manejar_router e nombre = Some l
             \<and> registro (snd (snd (descargar_archivos r (Some c) nombre backup fecha w)))
                 = registro w @ [l]))
    \<and> (\<forall>L. r_open_sftp r = None \<and> r_listdir r ''.'' = Inr L \<longrightarrow>
          pedidos (snd (snd (descargar_archivos r (Some c) nombre backup fecha w)))
            = pedidos w @ Listdir ''.'' #
                map (peticion backup nombre fecha) (filter (\<lambda>a. a \<in> set L) archivos_deseados)
          \<and> registro (snd (snd (descargar_archivos r (Some c) nombre backup fecha w)))
            = registro w @ concat (map (lineas_de r L backup nombre fecha) archivos_deseados))"
proof (intro conjI allI impI)
  show n: "fst (descargar_archivos r (Some c) nombre backup fecha w) = None"
  proof (cases "fst (descargar_archivos r (Some c) nombre backup fecha w)")
    case None
    then show ?thesis .
  next
    case (Some e)
    then have ne: "\<not> atrapable e" by (rule descargar_archivos_sale)
    from Some have "fst (intentar_descargas r (Some c) nombre backup fecha w) = Some e"
      by (auto simp: descargar_archivos_def Let_def split: prod.splits option.splits)
    then have "atrapable e"
      using assms(1,2) bucle_atrapa[OF assms(3)]
      by (auto simp: intentar_descargas_def Let_def split: option.splits sum.splits)
    with ne show ?thesis by simp
  qed
next
  fix e assume "r_open_sftp r = Some e"
  moreover with assms(1) obtain l where "manejar_router e nombre = Some l"
    using manejar_router_None[of e nombre] by (cases "manejar_router e nombre") auto
  ultimately show "\<exists>l. manejar_router e nombre = Some l
             \<and> registro (snd (snd (descargar_archivos r (Some c) nombre backup fecha w)))
                 = registro w @ [l]"
    by (simp add: descargar_archivos_def intentar_descargas_def anotar_def)
next
  fix e assume a: "r_open_sftp r = None \<and> r_listdir r ''.'' = Inl e"
  with assms(2) obtain l where "manejar_router e nombre = Some l"
    using manejar_router_None[of e nombre] by (cases "manejar_router e nombre") auto
  with a show "\<exists>l. manejar_router e nombre = Some l
             \<and> registro (snd (snd (descargar_archivos r (Some c) nombre backup fecha w)))
                 = registro w @ [l]"
    by (simp add: descargar_archivos_def intentar_descargas_def anotar_def Let_def)
next
  fix L assume a: "r_open_sftp r = None \<and> r_listdir r ''.'' = Inr L"
  let ?w1 = "w\<lparr>pedidos := pedidos w @ [Listdir ''.'']\<rparr>"
  let ?b = "bucle_descargas r L backup nombre fecha archivos_deseados ?w1"
  have i: "intentar_descargas r (Some c) nombre backup fecha w = ?b"
    using a by (simp add: intentar_descargas_def Let_def)
  have b: "fst ?b = None" by (rule bucle_atrapa[OF assms(3)])
  obtain wb where wb: "?b = (None, wb)" using b by (cases ?b) auto
  have d: "snd (snd (descargar_archivos r (Some c) nombre backup fecha w)) = snd ?b"
    using i wb by (simp add: descargar_archivos_def Let_def)
  show "pedidos (snd (snd (descargar_archivos r (Some c) nombre backup fecha w)))
            = pedidos w @ Listdir ''.'' #
                map (peticion backup nombre fecha) (filter (\<lambda>a. a \<in> set L) archivos_deseados)"
    using d bucle_completo[OF b] by simp
  show "registro (snd (snd (descargar_archivos r (Some c) nombre backup fecha w)))
            = registro w @ concat (map (lineas_de r L backup nombre fecha) archivos_deseados)"
    using d bucle_registro[OF assms(3), of L backup nombre fecha archivos_deseados ?w1] by simp
qed

theorem fallos_atrapados_witness:
  "fst (descargar_archivos
      \<lparr>r_open_sftp = None, r_listdir = (\<lambda>_. Inr [''latest.rsc'', ''latest.backup'']),
       r_get = (\<lambda>p _. if p = ''/latest.rsc'' then Some (OSError FileNotFoundError) else None),
       r_cwd = [], r_hora = 0\<rparr>
      (Some \<lparr>host = ''10.0.0.1'', cierres = 0\<rparr>) ''edge1'' ''/srv'' ''20240101''
      \<lparr>registro = [], dir = \<lparr>entradas = [], falla = (\<lambda>_. None), sello = (\<lambda>t. t)\<rparr>,
       pedidos = []\<rparr>) = None
   \<and> pedidos (snd (snd (descargar_archivos
      \<lparr>r_open_sftp = None, r_listdir = (\<lambda>_. Inr [''latest.rsc'', ''latest.backup'']),
       r_get = (\<lambda>p _. if p = ''/latest.rsc'' then Some (OSError FileNotFoundError) else None),
       r_cwd = [], r_hora = 0\<rparr>
      (Some \<lparr>host = ''10.0.0.1'', cierres = 0\<rparr>) ''edge1'' ''/srv'' ''20240101''
      \<lparr>registro = [], dir = \<lparr>entradas = [], falla = (\<lambda>_. None), sello = (\<lambda>t. t)\<rparr>,
       pedidos = []\<rparr>)))
     = [Listdir ''.'', Get ''/latest.rsc'' ''/srv/edge1_20240101_latest.rsc'',
        Get ''/latest.backup'' ''/srv/edge1_20240101_latest.backup'']
   \<and> registro (snd (snd (descargar_archivos
      \<lparr>r_open_sftp = None, r_listdir = (\<lambda>_. Inr [''latest.rsc'', ''latest.backup'']),
       r_get = (\<lambda>p _. if p = ''/latest.rsc'' then Some (OSError FileNotFoundError) else None),
       r_cwd = [], r_hora = 0\<rparr>
      (Some \<lparr>host = ''10.0.0.1'', cierres = 0\<rparr>) ''edge1'' ''/srv'' ''20240101''
      \<lparr>registro = [], dir = \<lparr>entradas = [], falla = (\<lambda>_. None), sello = (\<lambda>t. t)\<rparr>,
       pedidos = []\<rparr>)))
     = [Descarga_no_encontrado, Descargado ''latest.backup'' ''edge1'']"
proof -
  let ?r = "\<lparr>r_open_sftp = None, r_listdir = (\<lambda>_. Inr [''latest.rsc'', ''latest.backup'']),
       r_get = (\<lambda>p _. if p = ''/latest.rsc'' then Some (OSError FileNotFoundError) else None),
       r_cwd = [], r_hora = 0\<rparr>"
  let ?w = "\<lparr>registro = [], dir = \<lparr>entradas = [], falla = (\<lambda>_. None), sello = (\<lambda>t. t)\<rparr>,
       pedidos = []\<rparr>"
  have h1: "\<forall>e. r_open_sftp ?r = Some e \<longrightarrow> atrapable e" by simp
  have h2: "\<forall>e. r_listdir ?r ''.'' = Inl e \<longrightarrow> atrapable e" by simp
  have h3: "\<forall>p q e. r_get ?r p q = Some e \<longrightarrow> atrapable e" by (simp add: atrapable_def)
  from fallos_atrapados[OF h1 h2 h3, of "\<lparr>host = ''10.0.0.1'', cierres = 0\<rparr>" "''edge1''" "''/srv''" "''20240101''" ?w]
  show ?thesis
    by (simp add: archivos_deseados_def peticion_def lineas_de_def os_path_join_def
          startswith_def endswith_def manejar_descarga_def)
qed

text \<open>
  Claim C8. Whatever the router does (normal return, a failure while listing, a failure
  while transferring, caught or not), the session passed in comes back with exactly one
  more \<^verbatim>\<open>close()\<close> than it had.
\<close>

theorem sesion_cerrada_una_vez:
  "fst (snd (descargar_archivos r (Some c) nombre backup fecha w))
     = Some (c\<lparr>cierres := cierres c + 1\<rparr>)"
  by (simp add: descargar_archivos_def Let_def split: prod.splits)

text \<open>
  The three ways out for a session that was open: both files fetched, the listing fails
  with a caught exception, a transfer fails with one that is not caught.
\<close>

theorem sesion_cerrada_una_vez_witness:
  "map (\<lambda>r. map_option cierres (fst (snd (descargar_archivos r
          (Some \<lparr>host = ''10.0.0.1'', cierres = 0\<rparr>) ''edge1'' ''/srv'' ''20240101''
          \<lparr>registro = [], dir = \<lparr>entradas = [], falla = (\<lambda>_. None), sello = (\<lambda>t. t)\<rparr>,
           pedidos = []\<rparr>))))
     [\<lparr>r_open_sftp = None, r_listdir = (\<lambda>_. Inr [''latest.rsc'', ''latest.backup'']),
       r_get = (\<lambda>_ _. None), r_cwd = [], r_hora = 0\<rparr>,
      \<lparr>r_open_sftp = None, r_listdir = (\<lambda>_. Inl SSHException),
       r_get = (\<lambda>_ _. None), r_cwd = [], r_hora = 0\<rparr>,
      \<lparr>r_open_sftp = None, r_listdir = (\<lambda>_. Inr [''latest.rsc'', ''latest.backup'']),
       r_get = (\<lambda>_ _. Some OtherException), r_cwd = [], r_hora = 0\<rparr>]
   = [Some 1, Some 1, Some 1]"
  by (simp add: sesion_cerrada_una_vez)

lemma descargar_archivos_pedidos:
  "pedidos (snd (snd (descargar_archivos r ssh nombre backup fecha w)))
     = pedidos (snd (intentar_descargas r ssh nombre backup fecha w))"
  by (simp add: descargar_archivos_def Let_def anotar_def split: prod.splits option.splits)

lemma descargar_archivos_normal:
  assumes "fst (descargar_archivos r (Some c) nombre backup fecha w) = None"
    and "r_open_sftp r = None" and "r_listdir r ''.'' = Inr L"
  shows "pedidos (snd (snd (descargar_archivos r (Some c) nombre backup fecha w)))
     = pedidos w @ Listdir ''.'' #
         map (peticion backup nombre fecha) (filter (\<lambda>a. a \<in> set L) archivos_deseados)"
proof -
  let ?w1 = "w\<lparr>pedidos := pedidos w @ [Listdir ''.'']\<rparr>"
  let ?b = "bucle_descargas r L backup nombre fecha archivos_deseados ?w1"
  have i: "intentar_descargas r (Some c) nombre backup fecha w = ?b"
    using assms(2,3) by (simp add: intentar_descargas_def Let_def)
  have "fst ?b = None"
  proof (cases "fst ?b")
    case None
    then show ?thesis .
  next
    case (Some e)
    then have "\<not> atrapable e" by (rule bucle_sale)
    then have "manejar_router e nombre = None" by (simp add: manejar_router_None)
    moreover obtain wb where "?b = (Some e, wb)" using Some by (cases ?b) auto
    ultimately have "fst (descargar_archivos r (Some c) nombre backup fecha w) = Some e"
      using i by (simp add: descargar_archivos_def Let_def)
    with assms(1) show ?thesis by simp
  qed
  from bucle_completo[OF this] i show ?thesis
    by (simp add: descargar_archivos_pedidos)
qed

lemma resolver_punto: "resolver base ''.'' = base"
  by (simp add: resolver_def startswith_def componentes_def)

lemma directorio_de_peticion:
  "a \<in> set archivos_deseados \<Longrightarrow> directorio_de base (peticion backup nombre fecha a) = []"
  by (auto simp: archivos_deseados_def peticion_def resolver_def startswith_def componentes_def)

text \<open>
  Claim C10. The requests of a call are the listing of \<^verbatim>\<open>.\<close> and then, for
  allow-listed names of that listing, in order, the download of \<^verbatim>\<open>/name\<close> (all of
  them when the call returns normally). The listing reads the server's working
  directory, each download reads the root, and the two are the same directory exactly
  when the working directory is the root.
\<close>

theorem listado_y_descarga:
  "(\<exists>k. pedidos (snd (snd (descargar_archivos r (Some c) nombre backup fecha w)))
        = pedidos w @
          (case r_open_sftp r of
             Some _ \<Rightarrow> []
           | None \<Rightarrow>
               Listdir ''.'' #
               (case r_listdir r ''.'' of
                  Inl _ \<Rightarrow> []
                | Inr L \<Rightarrow>
                    take k (map (peticion backup nombre fecha)
                              (filter (\<lambda>a. a \<in> set L) archivos_deseados)))))
   \<and> (fst (descargar_archivos r (Some c) nombre backup fecha w) = None \<longrightarrow>
        (\<forall>L a. r_open_sftp r = None \<and> r_listdir r ''.'' = Inr L
               \<and> a \<in> set archivos_deseados \<and> a \<in> set L \<longrightarrow>
           peticion backup nombre fecha a
             \<in> set (pedidos (snd (snd (descargar_archivos r (Some c) nombre backup fecha w))))))
   \<and> (\<forall>a \<in> set archivos_deseados.
        peticion backup nombre fecha a
          = Get (''/'' @ a) (os_path_join backup (nombre @ ''_'' @ fecha @ ''_'' @ a))
        \<and> directorio_de (r_cwd r) (Listdir ''.'') = r_cwd r
        \<and> directorio_de (r_cwd r) (peticion backup nombre fecha a) = []
        \<and> (directorio_de (r_cwd r) (Listdir ''.'')
             = directorio_de (r_cwd r) (peticion backup nombre fecha a)
           \<longleftrightarrow> r_cwd r = []))"
proof (intro conjI)
  show "\<exists>k. pedidos (snd (snd (descargar_archivos r (Some c) nombre backup fecha w)))
        = pedidos w @
          (case r_open_sftp r of
             Some _ \<Rightarrow> []
           | None \<Rightarrow>
               Listdir ''.'' #
               (case r_listdir r ''.'' of
                  Inl _ \<Rightarrow> []
                | Inr L \<Rightarrow>
                    take k (map (peticion backup nombre fecha)
                              (filter (\<lambda>a. a \<in> set L) archivos_deseados))))"
  proof (cases "r_open_sftp r")
    case (Some e)
    then show ?thesis
      by (simp add: descargar_archivos_pedidos intentar_descargas_def)
  next
    case None
    show ?thesis
    proof (cases "r_listdir r ''.''")
      case (Inl e)
      with None show ?thesis
        by (simp add: descargar_archivos_pedidos intentar_descargas_def Let_def)
    next
      case (Inr L)
      from bucle_pedidos[of r L backup nombre fecha archivos_deseados
             "w\<lparr>pedidos := pedidos w @ [Listdir ''.'']\<rparr>"]
      obtain k where "pedidos (snd (bucle_descargas r L backup nombre fecha archivos_deseados
             (w\<lparr>pedidos := pedidos w @ [Listdir ''.'']\<rparr>)))
         = (pedidos w @ [Listdir ''.'']) @
             take k (map (peticion backup nombre fecha) (filter (\<lambda>a. a \<in> set L) archivos_deseados))"
        by auto
      with None Inr show ?thesis
        by (auto simp: descargar_archivos_pedidos intentar_descargas_def Let_def)
    qed
  qed
next
  show "fst (descargar_archivos r (Some c) nombre backup fecha w) = None \<longrightarrow>
        (\<forall>L a. r_open_sftp r = None \<and> r_listdir r ''.'' = Inr L
               \<and> a \<in> set archivos_deseados \<and> a \<in> set L \<longrightarrow>
           peticion backup nombre fecha a
             \<in> set (pedidos (snd (snd (descargar_archivos r (Some c) nombre backup fecha w)))))"
    using descargar_archivos_normal[of r c nombre backup fecha w] by auto
next
  show "\<forall>a \<in> set archivos_deseados.
        peticion backup nombre fecha a
          = Get (''/'' @ a) (os_path_join backup (nombre @ ''_'' @ fecha @ ''_'' @ a))
        \<and> directorio_de (r_cwd r) (Listdir ''.'') = r_cwd r
        \<and> directorio_de (r_cwd r) (peticion backup nombre fecha a) = []
        \<and> (directorio_de (r_cwd r) (Listdir ''.'')
             = directorio_de (r_cwd r) (peticion backup nombre fecha a)
           \<longleftrightarrow> r_cwd r = [])"
    using directorio_de_peticion[of _ "r_cwd r" backup nombre fecha]
    by (auto simp: resolver_punto peticion_def)
qed

theorem listado_y_descarga_witness:
  "pedidos (snd (snd (descargar_archivos
      \<lparr>r_open_sftp = None, r_listdir = (\<lambda>_. Inr [''latest.rsc'', ''latest.backup'']),
       r_get = (\<lambda>_ _. Some (OSError FileNotFoundError)),
       r_cwd = [''flash''], r_hora = 0\<rparr>
      (Some \<lparr>host = ''10.0.0.1'', cierres = 0\<rparr>) ''edge1'' ''/srv'' ''20240101''
      \<lparr>registro = [], dir = \<lparr>entradas = [], falla = (\<lambda>_. None), sello = (\<lambda>t. t)\<rparr>,
       pedidos = []\<rparr>)))
     = [Listdir ''.'', Get ''/latest.rsc'' ''/srv/edge1_20240101_latest.rsc'',
        Get ''/latest.backup'' ''/srv/edge1_20240101_latest.backup'']
   \<and> directorio_de [''flash''] (Listdir ''.'') = [''flash'']
   \<and> directorio_de [''flash''] (Get ''/latest.rsc'' ''/srv/edge1_20240101_latest.rsc'') = []
   \<and> directorio_de [''flash''] (Listdir ''.'')
        \<noteq> directorio_de [''flash''] (Get ''/latest.rsc'' ''/srv/edge1_20240101_latest.rsc'')"
proof -
  let ?r = "\<lparr>r_open_sftp = None, r_listdir = (\<lambda>_. Inr [''latest.rsc'', ''latest.backup'']),
       r_get = (\<lambda>_ _. Some (OSError FileNotFoundError)),
       r_cwd = [''flash''], r_hora = 0\<rparr>"
  let ?c = "\<lparr>host = ''10.0.0.1'', cierres = 0\<rparr>"
  let ?w = "\<lparr>registro = [], dir = \<lparr>entradas = [], falla = (\<lambda>_. None), sello = (\<lambda>t. t)\<rparr>,
       pedidos = []\<rparr>"
  have n: "fst (descargar_archivos ?r (Some ?c) ''edge1'' ''/srv'' ''20240101'' ?w) = None"
    by (simp add: descargar_archivos_def intentar_descargas_def descargar_archivo_def
          manejar_descarga_def archivos_deseados_def Let_def)
  have p: "peticion ''/srv'' ''edge1'' ''20240101'' ''latest.rsc''
             = Get ''/latest.rsc'' ''/srv/edge1_20240101_latest.rsc''"
    by (simp add: peticion_def os_path_join_def startswith_def endswith_def)
  have q: "peticion ''/srv'' ''edge1'' ''20240101'' ''latest.backup''
             = Get ''/latest.backup'' ''/srv/edge1_20240101_latest.backup''"
    by (simp add: peticion_def os_path_join_def startswith_def endswith_def)
  have m: "''latest.rsc'' \<in> set archivos_deseados" by (simp add: archivos_deseados_def)
  note t = listado_y_descarga[of ?r ?c "''edge1''" "''/srv''" "''20240101''" ?w]
  from t have t3: "directorio_de [''flash''] (Listdir ''.'') = [''flash'']
        \<and> directorio_de [''flash''] (peticion ''/srv'' ''edge1'' ''20240101'' ''latest.rsc'') = []"
    using m by auto
  have ped: "pedidos (snd (snd (descargar_archivos ?r (Some ?c) ''edge1'' ''/srv'' ''20240101'' ?w)))
     = [Listdir ''.'', Get ''/latest.rsc'' ''/srv/edge1_20240101_latest.rsc'',
        Get ''/latest.backup'' ''/srv/edge1_20240101_latest.backup'']"
    by (simp add: descargar_archivos_def intentar_descargas_def descargar_archivo_def
          manejar_descarga_def archivos_deseados_def Let_def anotar_def os_path_join_def
          startswith_def endswith_def)
  from t3 p ped show ?thesis by simp
qed

section \<open>Properties of the run\<close>

lemma ejecutar_inv:
  assumes "P s" and "\<And>s a. P s \<Longrightarrow> P (paso env s a)"
  shows "P (ejecutar env acciones s)"
  unfolding ejecutar_def using assms(1)
  by (induction acciones arbitrary: s) (simp_all add: assms(2))

lemma cierre_final:
  "fst (snd (descargar_archivos r (Some c) nombre backup fecha w))
     = Some (c\<lparr>cierres := cierres c + 1\<rparr>)"
  by (simp add: descargar_archivos_def Let_def split: prod.splits)

lemma length_quitar: "i < length xs \<Longrightarrow> length (quitar i xs) = length xs - 1"
  by (simp add: quitar_def min_def)

text \<open>
  The steps of a running job do what \<^verbatim>\<open>respaldar_router\<close> does: the connection
  and, when it gave a session, the downloads.
\<close>

lemma trabajo_es_respaldar_router:
  assumes "i < length (activos s)" and "activos s ! i = (t, Conectando)"
  shows "(case respaldar_router env (fst t) (snd t) (cwd env) (compartido s) of
            (x, c, w) \<Rightarrow>
              (let s1 = paso_conectar env i s;
                   s2 = (if length (activos s1) < length (activos s) then s1
                         else paso_descargar env i s1)
               in hechos s2 = hechos s @ [(t, c)] \<and> compartido s2 = w
                  \<and> activos s2 = quitar i (activos s)))"
proof -
  obtain x c' lg where cs: "conectar_ssh (connect env) (fst t) (registro (compartido s))
      = (x, c', lg)" by (metis prod_cases3)
  show ?thesis
  proof (cases "x = None \<and> c' \<noteq> None")
    case False
    then have s1: "paso_conectar env i s =
        s\<lparr>activos := quitar i (activos s), hechos := hechos s @ [(t, None)],
          compartido := (compartido s)\<lparr>registro := lg\<rparr>\<rparr>"
      using assms cs by (cases x; cases c') (simp_all add: paso_conectar_def)
    have l: "length (quitar i (activos s)) < length (activos s)"
      using assms(1) by (simp add: length_quitar)
    from False cs have "respaldar_router env (fst t) (snd t) (cwd env) (compartido s)
        = (x, None, (compartido s)\<lparr>registro := lg\<rparr>)"
      by (cases x; cases c') (simp_all add: respaldar_router_def conectar_ssh_def
            split: option.splits)
    with s1 l show ?thesis by (simp add: Let_def)
  next
    case True
    then obtain c where xc: "x = None" "c' = Some c" by auto
    with assms cs have s1: "paso_conectar env i s =
        s\<lparr>activos := (activos s)[i := (t, Conectado c)],
          compartido := (compartido s)\<lparr>registro := lg\<rparr>\<rparr>"
      by (simp add: paso_conectar_def)
    obtain y d w' where da: "descargar_archivos (router_de env (fst t)) (Some c) (snd t)
        (cwd env) (hoy env) ((compartido s)\<lparr>registro := lg\<rparr>) = (y, d, w')"
      by (metis prod_cases3)
    from xc cs da have rr: "respaldar_router env (fst t) (snd t) (cwd env) (compartido s)
        = (y, d, w')"
      by (simp add: respaldar_router_def)
    have q: "quitar i ((activos s)[i := (t, Conectado c)]) = quitar i (activos s)"
      by (simp add: quitar_def)
    from s1 assms(1) da have "paso_descargar env i (paso_conectar env i s) =
        s\<lparr>activos := quitar i (activos s), hechos := hechos s @ [(t, d)], compartido := w'\<rparr>"
      by (simp add: paso_descargar_def q)
    with s1 assms(1) rr show ?thesis by (simp add: Let_def)
  qed
qed

lemma acotado_principal: "acotado s \<Longrightarrow> acotado (paso_principal env s)"
  by (simp add: acotado_def paso_principal_def
           split: principal.splits list.splits option.splits prod.splits sum.splits)

lemma acotado_tomar: "acotado s \<Longrightarrow> acotado (paso_tomar s)"
  by (simp add: acotado_def paso_tomar_def split: list.splits)

lemma acotado_conectar: "acotado s \<Longrightarrow> acotado (paso_conectar env i s)"
  by (auto simp: acotado_def paso_conectar_def length_quitar
           split: prod.splits fase.splits option.splits)

lemma acotado_descargar: "acotado s \<Longrightarrow> acotado (paso_descargar env i s)"
proof -
  assume a: "acotado s"
  show ?thesis
  proof (cases "i < length (activos s)")
    case False
    with a show ?thesis by (simp add: paso_descargar_def)
  next
    case True
    obtain t f where tf: "activos s ! i = (t, f)" by (cases "activos s ! i") auto
    show ?thesis
    proof (cases f)
      case Conectando
      with a tf True show ?thesis by (simp add: paso_descargar_def)
    next
      case (Conectado c)
      obtain x c' w' where d: "descargar_archivos (router_de env (fst t)) (Some c) (snd t)
          (cwd env) (hoy env) (compartido s) = (x, c', w')" by (metis prod_cases3)
      with cierre_final[of "router_de env (fst t)" c "snd t" "cwd env" "hoy env" "compartido s"]
      have "c' = Some (c\<lparr>cierres := cierres c + 1\<rparr>)" by simp
      with a tf True Conectado d show ?thesis
        by (auto simp: paso_descargar_def acotado_def length_quitar)
    qed
  qed
qed

lemma acotado_paso: "acotado s \<Longrightarrow> acotado (paso env s a)"
  by (cases a) (simp_all add: acotado_principal acotado_tomar acotado_conectar acotado_descargar)

lemma acotado_inicial: "acotado (inicial env w)"
  by (simp add: acotado_def inicial_def)

lemma abiertas_acotado: "acotado s \<Longrightarrow> abiertas s \<le> max_workers"
proof -
  assume a: "acotado s"
  have h: "length (filter abierta_hecho (hechos s)) = 0" using a by (simp add: acotado_def)
  have l: "length (filter abierta_fase (activos s)) \<le> length (activos s)"
    by (rule length_filter_le)
  have m: "length (activos s) \<le> max_workers" using a by (simp add: acotado_def)
  show ?thesis unfolding abiertas_def using h l m by linarith
qed

text \<open>
  Claim C9. In every state a run can reach, under every schedule and for every router
  list (one of 10 rows included), at most \<open>max_workers\<close> sessions are open, and
  \<open>max_workers\<close> is 4: a session is opened by a running job only, the pool runs at
  most \<open>max_workers\<close> jobs at a time, and a job closes its session before it ends.
\<close>

theorem sesiones_acotadas:
  "abiertas (ejecutar env acciones (inicial env w)) \<le> max_workers \<and> max_workers = 4"
proof
  have "acotado (ejecutar env acciones (inicial env w))"
    by (rule ejecutar_inv[where P = acotado, OF acotado_inicial acotado_paso])
  then show "abiertas (ejecutar env acciones (inicial env w)) \<le> max_workers"
    by (rule abiertas_acotado)
  show "max_workers = 4" by (simp add: max_workers_def)
qed

text \<open>
  With 10 rows the bound is reached and not passed: once four jobs hold a session, the
  fifth job stays in the queue.
\<close>

lemmas evalua_pasos =
  ejecutar_def inicial_def paso_principal_def paso_tomar_def paso_conectar_def
  paso_descargar_def conectar_ssh_def manejar_conexion_def quitar_def max_workers_def
  abiertas_def

theorem sesiones_acotadas_witness:
  "abiertas (ejecutar
      \<lparr>rt_csv = Some [Inr [''10.0.0.1'', ''r1''], Inr [''10.0.0.2'', ''r2''], Inr [''10.0.0.3'', ''r3''],
                      Inr [''10.0.0.4'', ''r4''], Inr [''10.0.0.5'', ''r5''], Inr [''10.0.0.6'', ''r6''],
                      Inr [''10.0.0.7'', ''r7''], Inr [''10.0.0.8'', ''r8''], Inr [''10.0.0.9'', ''r9''],
                      Inr [''10.0.0.10'', ''r10'']],
       error_open = FileNotFoundError, cwd = ''/srv'', connect = (\<lambda>_. None),
       router_de = (\<lambda>_. \<lparr>r_open_sftp = None, r_listdir = (\<lambda>_. Inr []),
                            r_get = (\<lambda>_ _. None), r_cwd = [], r_hora = 0\<rparr>),
       hoy = ''20240101'', ahora = 0\<rparr>
      [Principal, Principal, Principal, Principal, Principal, Principal, Principal,
       Principal, Principal, Principal, Tomar, Tomar, Tomar, Tomar, Tomar, Tomar,
       Conectar 0, Conectar 1, Conectar 2, Conectar 3, Conectar 4]
      (inicial
        \<lparr>rt_csv = Some [Inr [''10.0.0.1'', ''r1''], Inr [''10.0.0.2'', ''r2''], Inr [''10.0.0.3'', ''r3''],
                      Inr [''10.0.0.4'', ''r4''], Inr [''10.0.0.5'', ''r5''], Inr [''10.0.0.6'', ''r6''],
                      Inr [''10.0.0.7'', ''r7''], Inr [''10.0.0.8'', ''r8''], Inr [''10.0.0.9'', ''r9''],
                      Inr [''10.0.0.10'', ''r10'']],
       error_open = FileNotFoundError, cwd = ''/srv'', connect = (\<lambda>_. None),
       router_de = (\<lambda>_. \<lparr>r_open_sftp = None, r_listdir = (\<lambda>_. Inr []),
                            r_get = (\<lambda>_ _. None), r_cwd = [], r_hora = 0\<rparr>),
       hoy = ''20240101'', ahora = 0\<rparr>
        \<lparr>registro = [], dir = \<lparr>entradas = [], falla = (\<lambda>_. None), sello = (\<lambda>t. t)\<rparr>,
         pedidos = []\<rparr>)) = 4"
proof -
  let ?env = "\<lparr>rt_csv = Some [Inr [''10.0.0.1'', ''r1''], Inr [''10.0.0.2'', ''r2''], Inr [''10.0.0.3'', ''r3''],
                      Inr [''10.0.0.4'', ''r4''], Inr [''10.0.0.5'', ''r5''], Inr [''10.0.0.6'', ''r6''],
                      Inr [''10.0.0.7'', ''r7''], Inr [''10.0.0.8'', ''r8''], Inr [''10.0.0.9'', ''r9''],
                      Inr [''10.0.0.10'', ''r10'']],
       error_open = FileNotFoundError, cwd = ''/srv'', connect = (\<lambda>_. None),
       router_de = (\<lambda>_. \<lparr>r_open_sftp = None, r_listdir = (\<lambda>_. Inr []),
                            r_get = (\<lambda>_ _. None), r_cwd = [], r_hora = 0\<rparr>),
       hoy = ''20240101'', ahora = 0\<rparr>"
  let ?w = "\<lparr>registro = [], dir = \<lparr>entradas = [], falla = (\<lambda>_. None), sello = (\<lambda>t. t)\<rparr>,
         pedidos = []\<rparr>"
  let ?acc = "[Principal, Principal, Principal, Principal, Principal, Principal, Principal,
       Principal, Principal, Principal, Tomar, Tomar, Tomar, Tomar, Tomar, Tomar,
       Conectar 0, Conectar 1, Conectar 2, Conectar 3, Conectar 4]"
  have l: "4 \<le> abiertas (ejecutar ?env ?acc (inicial ?env ?w))"
    by (simp add: evalua_pasos)
  have u: "abiertas (ejecutar ?env ?acc (inicial ?env ?w)) \<le> max_workers"
    and m: "max_workers = 4"
    using sesiones_acotadas[of ?env ?acc ?w] by blast+
  from l u m show ?thesis by linarith
qed

lemma mset_quitar:
  "i < length xs \<Longrightarrow> mset (map f (quitar i xs)) + {#f (xs ! i)#} = mset (map f xs)"
proof -
  assume "i < length xs"
  then have "xs = take i xs @ xs ! i # drop (Suc i) xs" by (rule id_take_nth_drop)
  then have "mset (map f xs) = mset (map f (take i xs @ xs ! i # drop (Suc i) xs))" by simp
  then show ?thesis by (simp add: quitar_def)
qed

lemma map_fst_update:
  "i < length xs \<Longrightarrow> fst (xs ! i) = t \<Longrightarrow> map fst (xs[i := (t, f)]) = map fst xs"
  by (simp add: map_update list_update_same_conv)

lemma en_orden_inicial: "en_orden env (inicial env w)"
  by (simp add: en_orden_def inicial_def split: option.splits)

lemma en_orden_principal: "en_orden env s \<Longrightarrow> en_orden env (paso_principal env s)"
  by (auto simp: en_orden_def paso_principal_def
           split: principal.splits list.splits option.splits prod.splits sum.splits)

lemma en_orden_tomar: "en_orden env s \<Longrightarrow> en_orden env (paso_tomar s)"
  by (auto simp: en_orden_def paso_tomar_def split: list.splits)

lemma en_orden_conectar: "en_orden env s \<Longrightarrow> en_orden env (paso_conectar env i s)"
proof -
  assume a: "en_orden env s"
  show ?thesis
  proof (cases "i < length (activos s)")
    case False
    with a show ?thesis by (simp add: paso_conectar_def)
  next
    case True
    with a have pcs: "pc s \<noteq> Por_rotar" "\<And>x. pc s \<noteq> Terminado x"
      by (auto simp: en_orden_def)
    obtain t f where tf: "activos s ! i = (t, f)" by (cases "activos s ! i") auto
    have q: "mset (map fst (quitar i (activos s))) + {#t#} = mset (map fst (activos s))"
      using mset_quitar[OF True, of fst] tf by simp
    have u: "map fst ((activos s)[i := (t, g)]) = map fst (activos s)" for g
      using map_fst_update[OF True, of t g] tf by simp
    from a have m: "mset (enviados s)
        = mset (cola s) + mset (map fst (activos s)) + mset (map fst (hechos s))"
      and r: "rotaciones s = (if pc s = Terminado None then [cwd env] else [])"
      by (simp_all add: en_orden_def)
    show ?thesis
    proof (cases f)
      case (Conectado c)
      with a tf True show ?thesis by (simp add: paso_conectar_def)
    next
      case Conectando
      obtain x c' lg where cs: "conectar_ssh (connect env) (fst t) (registro (compartido s))
          = (x, c', lg)" by (metis prod_cases3)
      show ?thesis
      proof (cases "x = None \<and> c' \<noteq> None")
        case True
        then obtain c where "x = None" "c' = Some c" by auto
        with tf \<open>i < length (activos s)\<close> Conectando cs m r pcs u[of "Conectado c"]
        show ?thesis by (simp add: paso_conectar_def en_orden_def)
      next
        case False
        then have "paso_conectar env i s =
                  s\<lparr>activos := quitar i (activos s),
                    hechos := hechos s @ [(t, None)],
                    compartido := (compartido s)\<lparr>registro := lg\<rparr>\<rparr>"
          using tf \<open>i < length (activos s)\<close> Conectando cs
          by (cases x; cases c') (simp_all add: paso_conectar_def)
        with m r pcs q show ?thesis
          by (simp add: en_orden_def)
      qed
    qed
  qed
qed

lemma en_orden_descargar: "en_orden env s \<Longrightarrow> en_orden env (paso_descargar env i s)"
proof -
  assume a: "en_orden env s"
  show ?thesis
  proof (cases "i < length (activos s)")
    case False
    with a show ?thesis by (simp add: paso_descargar_def)
  next
    case True
    with a have pcs: "pc s \<noteq> Por_rotar" "\<And>x. pc s \<noteq> Terminado x"
      by (auto simp: en_orden_def)
    obtain t f where tf: "activos s ! i = (t, f)" by (cases "activos s ! i") auto
    have q: "mset (map fst (quitar i (activos s))) + {#t#} = mset (map fst (activos s))"
      using mset_quitar[OF True, of fst] tf by simp
    from a have m: "mset (enviados s)
        = mset (cola s) + mset (map fst (activos s)) + mset (map fst (hechos s))"
      and r: "rotaciones s = (if pc s = Terminado None then [cwd env] else [])"
      by (simp_all add: en_orden_def)
    show ?thesis
    proof (cases f)
      case Conectando
      with a tf True show ?thesis by (simp add: paso_descargar_def)
    next
      case (Conectado c)
      obtain x c' w' where d: "descargar_archivos (router_de env (fst t)) (Some c) (snd t)
          (cwd env) (hoy env) (compartido s) = (x, c', w')" by (metis prod_cases3)
      with tf True Conectado have "paso_descargar env i s =
          s\<lparr>activos := quitar i (activos s), hechos := hechos s @ [(t, c')], compartido := w'\<rparr>"
        by (simp add: paso_descargar_def)
      with m r pcs q show ?thesis
        by (simp add: en_orden_def)
    qed
  qed
qed

lemma en_orden_paso: "en_orden env s \<Longrightarrow> en_orden env (paso env s a)"
  by (cases a)
     (simp_all add: en_orden_principal en_orden_tomar en_orden_conectar en_orden_descargar)

lemma leido_inicial: "leido env (inicial env w)"
  by (auto simp: leido_def inicial_def split: option.splits)

lemma fila_ok_simps [simp]:
  "fila_ok (Inl e) = False" "fila_ok (Inr fila) = (2 \<le> length fila)"
  by (simp_all add: fila_ok_def)

lemma trabajos_de_append:
  "list_all fila_ok xs \<Longrightarrow> trabajos_de (xs @ ys) = trabajos_de xs @ trabajos_de ys"
  by (induction xs rule: trabajos_de.induct) auto

lemma error_de_lectura_append:
  "list_all fila_ok xs \<Longrightarrow> error_de_lectura (xs @ ys) = error_de_lectura ys"
  by (induction xs rule: error_de_lectura.induct) auto

lemma error_de_lectura_None: "error_de_lectura rows = None \<longleftrightarrow> list_all fila_ok rows"
  by (induction rows rule: error_de_lectura.induct) auto

lemma leido_principal: "leido env s \<Longrightarrow> leido env (paso_principal env s)"
proof (cases "rt_csv env")
  case None
  assume "leido env s"
  with None show ?thesis by (simp add: leido_def paso_principal_def)
next
  case (Some rows)
  assume a: "leido env s"
  show ?thesis
  proof (cases "pc s")
    case Leyendo
    with a Some obtain leidas where l: "rows = leidas @ filas s" "list_all fila_ok leidas"
        "enviados s = trabajos_de leidas"
      by (auto simp: leido_def)
    show ?thesis
    proof (cases "filas s")
      case Nil
      with l Leyendo Some show ?thesis
        by (simp add: leido_def paso_principal_def error_de_lectura_None[THEN iffD2])
    next
      case (Cons x resto)
      from l(1,2) Cons have t: "trabajos_de rows = trabajos_de leidas @ trabajos_de (x # resto)"
        and e: "error_de_lectura rows = error_de_lectura (x # resto)"
        by (simp_all add: trabajos_de_append error_de_lectura_append)
      show ?thesis
      proof (cases x)
        case (Inl ex)
        with l t e Cons Leyendo Some show ?thesis
          by (simp add: leido_def paso_principal_def)
      next
        case (Inr fila)
        show ?thesis
        proof (cases "length fila < 2")
          case True
          with Inr l t e Cons Leyendo Some show ?thesis
            by (simp add: leido_def paso_principal_def)
        next
          case False
          with Inr l Cons have "rows = (leidas @ [x]) @ resto \<and> list_all fila_ok (leidas @ [x])
              \<and> enviados s @ [(fila ! 0, fila ! 1)] = trabajos_de (leidas @ [x])"
            by (simp add: trabajos_de_append)
          with False Inr Cons Leyendo Some show ?thesis
            unfolding leido_def paso_principal_def by simp
        qed
      qed
    qed
  next
    case (Esperando x)
    with a Some have xe: "error_de_lectura rows = x" and en: "enviados s = trabajos_de rows"
      by (auto simp: leido_def)
    show ?thesis
    proof (cases "cola s = [] \<and> activos s = []")
      case False
      with a Esperando show ?thesis by (auto simp: paso_principal_def)
    next
      case True
      show ?thesis
      proof (cases x)
        case None
        with True Esperando Some xe en show ?thesis
          by (simp add: leido_def paso_principal_def)
      next
        case (Some e)
        with True Esperando \<open>rt_csv env = Some rows\<close> xe en show ?thesis
          by (simp add: leido_def paso_principal_def)
      qed
    qed
  next
    case Por_rotar
    with a Some show ?thesis
      by (auto simp: leido_def paso_principal_def split: prod.splits)
  next
    case (Terminado x)
    with a Some show ?thesis
      by (simp add: leido_def paso_principal_def)
  qed
qed

lemma leido_tomar: "leido env s \<Longrightarrow> leido env (paso_tomar s)"
  by (simp add: leido_def paso_tomar_def split: list.splits option.splits)

lemma leido_conectar: "leido env s \<Longrightarrow> leido env (paso_conectar env i s)"
  by (simp add: leido_def paso_conectar_def
           split: list.splits option.splits prod.splits fase.splits)

lemma leido_descargar: "leido env s \<Longrightarrow> leido env (paso_descargar env i s)"
  by (simp add: leido_def paso_descargar_def
           split: list.splits option.splits prod.splits fase.splits)

lemma leido_paso: "leido env s \<Longrightarrow> leido env (paso env s a)"
  by (cases a) (simp_all add: leido_principal leido_tomar leido_conectar leido_descargar)

lemma en_orden_ejecutar: "en_orden env (ejecutar env acciones (inicial env w))"
  by (rule ejecutar_inv[where P = "en_orden env", OF en_orden_inicial en_orden_paso])

lemma leido_ejecutar: "leido env (ejecutar env acciones (inicial env w))"
  by (rule ejecutar_inv[where P = "leido env", OF leido_inicial leido_paso])

lemma quitar_0 [simp]: "quitar 0 (x # xs) = xs"
  by (simp add: quitar_def)

lemma siguiente_baja:
  assumes "\<And>x. pc s \<noteq> Terminado x"
  shows "peso (paso env s (siguiente s)) < peso s"
proof (cases "activos s")
  case (Cons tf rest)
  obtain t f where tf: "tf = (t, f)" by (cases tf) auto
  show ?thesis
  proof (cases f)
    case Conectando
    obtain x c' lg where "conectar_ssh (connect env) (fst t) (registro (compartido s))
          = (x, c', lg)" by (metis prod_cases3)
    with Cons tf Conectando show ?thesis
      by (cases x; cases c') (simp_all add: siguiente_def paso_conectar_def peso_def)
  next
    case (Conectado c)
    obtain x c' w' where "descargar_archivos (router_de env (fst t)) (Some c) (snd t)
          (cwd env) (hoy env) (compartido s) = (x, c', w')" by (metis prod_cases3)
    with Cons tf Conectado show ?thesis
      by (simp add: siguiente_def paso_descargar_def peso_def)
  qed
next
  case Nil
  show ?thesis
  proof (cases "cola s")
    case (Cons t q)
    with Nil show ?thesis
      by (simp add: siguiente_def paso_tomar_def peso_def max_workers_def)
  next
    case cn: Nil
    show ?thesis
    proof (cases "pc s")
      case Leyendo
      with Nil cn show ?thesis
        by (cases "filas s")
           (simp_all add: siguiente_def paso_principal_def peso_def split: sum.splits)
    next
      case (Esperando x)
      with Nil cn show ?thesis
        by (cases x) (simp_all add: siguiente_def paso_principal_def peso_def)
    next
      case Por_rotar
      with Nil cn show ?thesis
        by (simp add: siguiente_def paso_principal_def peso_def split: prod.splits)
    next
      case (Terminado x)
      with assms[of x] show ?thesis by simp
    qed
  qed
qed

lemma ejecutar_append:
  "ejecutar env (xs @ ys) s = ejecutar env ys (ejecutar env xs s)"
  by (simp add: ejecutar_def)

lemma ejecutar_Cons: "ejecutar env (a # xs) s = ejecutar env xs (paso env s a)"
  by (simp add: ejecutar_def)

lemma puede_terminar: "\<exists>mas x. pc (ejecutar env mas s) = Terminado x"
proof (induction "peso s" arbitrary: s rule: less_induct)
  case less
  show ?case
  proof (cases "\<exists>x. pc s = Terminado x")
    case True
    then obtain x where "pc (ejecutar env [] s) = Terminado x" by (auto simp: ejecutar_def)
    then show ?thesis by blast
  next
    case False
    then have "peso (paso env s (siguiente s)) < peso s" by (intro siguiente_baja) simp
    from less[OF this] obtain mas x
      where "pc (ejecutar env mas (paso env s (siguiente s))) = Terminado x" by blast
    then have "pc (ejecutar env (siguiente s # mas) s) = Terminado x"
      by (simp add: ejecutar_Cons)
    then show ?thesis by blast
  qed
qed

lemma acotado_ejecutar: "acotado (ejecutar env acciones (inicial env w))"
  by (rule ejecutar_inv[where P = acotado, OF acotado_inicial acotado_paso])

lemma lista_mala_no_rota:
  assumes "rt_csv env = None \<or> (\<exists>rows. rt_csv env = Some rows \<and> \<not> list_all fila_ok rows)"
  shows "rotaciones (ejecutar env acciones (inicial env w)) = []"
proof -
  let ?S = "ejecutar env acciones (inicial env w)"
  have o: "en_orden env ?S" by (rule en_orden_ejecutar)
  have l: "leido env ?S" by (rule leido_ejecutar)
  from assms l have "pc ?S \<noteq> Terminado None"
    by (auto simp: leido_def error_de_lectura_None[symmetric])
  with o show ?thesis by (simp add: en_orden_def)
qed

lemma lista_termina:
  assumes "rt_csv env = Some rows"
  shows "\<exists>mas. pc (ejecutar env (acciones @ mas) (inicial env w))
                 = Terminado (error_de_lectura rows)
             \<and> enviados (ejecutar env (acciones @ mas) (inicial env w)) = trabajos_de rows
             \<and> mset (map fst (hechos (ejecutar env (acciones @ mas) (inicial env w))))
                 = mset (enviados (ejecutar env (acciones @ mas) (inicial env w)))
             \<and> rotaciones (ejecutar env (acciones @ mas) (inicial env w))
                 = (if error_de_lectura rows = None then [cwd env] else [])"
proof -
  from puede_terminar[of env "ejecutar env acciones (inicial env w)"]
  obtain mas x where t: "pc (ejecutar env (acciones @ mas) (inicial env w)) = Terminado x"
    by (auto simp: ejecutar_append)
  let ?F = "ejecutar env (acciones @ mas) (inicial env w)"
  have l: "leido env ?F" by (rule leido_ejecutar)
  have o: "en_orden env ?F" by (rule en_orden_ejecutar)
  from l t assms have x: "x = error_de_lectura rows" and e: "enviados ?F = trabajos_de rows"
    by (auto simp: leido_def)
  from o t have v: "cola ?F = []" "activos ?F = []"
    and m: "mset (enviados ?F)
        = mset (cola ?F) + mset (map fst (activos ?F)) + mset (map fst (hechos ?F))"
    and r: "rotaciones ?F = (if pc ?F = Terminado None then [cwd env] else [])"
    by (simp_all add: en_orden_def)
  from v m have "mset (map fst (hechos ?F)) = mset (enviados ?F)" by simp
  moreover from r t x have "rotaciones ?F = (if error_de_lectura rows = None then [cwd env] else [])"
    by simp
  ultimately show ?thesis using t x e by blast
qed

lemma lista_buena_termina:
  assumes "rt_csv env = Some rows" and "list_all fila_ok rows"
  shows "\<exists>mas. pc (ejecutar env (acciones @ mas) (inicial env w)) = Terminado None
             \<and> rotaciones (ejecutar env (acciones @ mas) (inicial env w)) = [cwd env]"
proof -
  from assms(2) have "error_de_lectura rows = None" by (simp add: error_de_lectura_None)
  with lista_termina[OF assms(1), of acciones w] show ?thesis by auto
qed

text \<open>
  Claim C1 says the rotation runs exactly once in every run. A blank line after the
  first row of \<^verbatim>\<open>rt.csv\<close> is a row with no field: the job of the first row is
  submitted and runs to its end, then \<^verbatim>\<open>fila[0]\<close> raises, the script ends with that
  exception, and under no schedule is the rotation called.
\<close>

theorem rotacion_omitida:
  "pc (ejecutar
        \<lparr>rt_csv = Some [Inr [''10.0.0.1'', ''edge1''], Inr []], error_open = FileNotFoundError, cwd = ''/srv'', connect = (\<lambda>_. None),
         router_de = (\<lambda>_. \<lparr>r_open_sftp = None, r_listdir = (\<lambda>_. Inr []),
                              r_get = (\<lambda>_ _. None), r_cwd = [], r_hora = 0\<rparr>),
         hoy = ''20240101'', ahora = 0\<rparr>
        [Principal, Tomar, Conectar 0, Descargar 0, Principal, Principal]
        (inicial
          \<lparr>rt_csv = Some [Inr [''10.0.0.1'', ''edge1''], Inr []], error_open = FileNotFoundError, cwd = ''/srv'', connect = (\<lambda>_. None),
           router_de = (\<lambda>_. \<lparr>r_open_sftp = None, r_listdir = (\<lambda>_. Inr []),
                                r_get = (\<lambda>_ _. None), r_cwd = [], r_hora = 0\<rparr>),
           hoy = ''20240101'', ahora = 0\<rparr>
          \<lparr>registro = [], dir = \<lparr>entradas = [], falla = (\<lambda>_. None), sello = (\<lambda>t. t)\<rparr>,
           pedidos = []\<rparr>))
     = Terminado (Some IndexError)
   \<and> map fst (hechos (ejecutar
        \<lparr>rt_csv = Some [Inr [''10.0.0.1'', ''edge1''], Inr []], error_open = FileNotFoundError, cwd = ''/srv'', connect = (\<lambda>_. None),
         router_de = (\<lambda>_. \<lparr>r_open_sftp = None, r_listdir = (\<lambda>_. Inr []),
                              r_get = (\<lambda>_ _. None), r_cwd = [], r_hora = 0\<rparr>),
         hoy = ''20240101'', ahora = 0\<rparr>
        [Principal, Tomar, Conectar 0, Descargar 0, Principal, Principal]
        (inicial
          \<lparr>rt_csv = Some [Inr [''10.0.0.1'', ''edge1''], Inr []], error_open = FileNotFoundError, cwd = ''/srv'', connect = (\<lambda>_. None),
           router_de = (\<lambda>_. \<lparr>r_open_sftp = None, r_listdir = (\<lambda>_. Inr []),
                                r_get = (\<lambda>_ _. None), r_cwd = [], r_hora = 0\<rparr>),
           hoy = ''20240101'', ahora = 0\<rparr>
          \<lparr>registro = [], dir = \<lparr>entradas = [], falla = (\<lambda>_. None), sello = (\<lambda>t. t)\<rparr>,
           pedidos = []\<rparr>)))
     = [(''10.0.0.1'', ''edge1'')]
   \<and> (\<forall>acciones. rotaciones (ejecutar
        \<lparr>rt_csv = Some [Inr [''10.0.0.1'', ''edge1''], Inr []], error_open = FileNotFoundError, cwd = ''/srv'', connect = (\<lambda>_. None),
         router_de = (\<lambda>_. \<lparr>r_open_sftp = None, r_listdir = (\<lambda>_. Inr []),
                              r_get = (\<lambda>_ _. None), r_cwd = [], r_hora = 0\<rparr>),
         hoy = ''20240101'', ahora = 0\<rparr>
        acciones
        (inicial
          \<lparr>rt_csv = Some [Inr [''10.0.0.1'', ''edge1''], Inr []], error_open = FileNotFoundError, cwd = ''/srv'', connect = (\<lambda>_. None),
           router_de = (\<lambda>_. \<lparr>r_open_sftp = None, r_listdir = (\<lambda>_. Inr []),
                                r_get = (\<lambda>_ _. None), r_cwd = [], r_hora = 0\<rparr>),
           hoy = ''20240101'', ahora = 0\<rparr>
          \<lparr>registro = [], dir = \<lparr>entradas = [], falla = (\<lambda>_. None), sello = (\<lambda>t. t)\<rparr>,
           pedidos = []\<rparr>)) = [])"
proof -
  let ?env = "\<lparr>rt_csv = Some [Inr [''10.0.0.1'', ''edge1''], Inr []], error_open = FileNotFoundError, cwd = ''/srv'', connect = (\<lambda>_. None),
         router_de = (\<lambda>_. \<lparr>r_open_sftp = None, r_listdir = (\<lambda>_. Inr []),
                              r_get = (\<lambda>_ _. None), r_cwd = [], r_hora = 0\<rparr>),
         hoy = ''20240101'', ahora = 0\<rparr>"
  let ?w = "\<lparr>registro = [], dir = \<lparr>entradas = [], falla = (\<lambda>_. None), sello = (\<lambda>t. t)\<rparr>,
           pedidos = []\<rparr>"
  let ?acc = "[Principal, Tomar, Conectar 0, Descargar 0, Principal, Principal]"
  have a: "pc (ejecutar ?env ?acc (inicial ?env ?w)) = Terminado (Some IndexError)"
    by (simp add: evalua_pasos evalua_descargas)
  have b: "map fst (hechos (ejecutar ?env ?acc (inicial ?env ?w))) = [(''10.0.0.1'', ''edge1'')]"
    by (simp add: evalua_pasos evalua_descargas)
  have "\<exists>rows. rt_csv ?env = Some rows \<and> \<not> list_all fila_ok rows"
    by (simp add: fila_ok_def)
  then have c: "\<forall>acciones. rotaciones (ejecutar ?env acciones (inicial ?env ?w)) = []"
    using lista_mala_no_rota[of ?env _ ?w] by blast
  from a b c show ?thesis by blast
qed

text \<open>
  Claim C1, for the runs whose list is read to its end. In every state of every run the
  rotation has been called at most once, and on the working directory; when it is about
  to be called, and ever after, no job is queued or running, the finished jobs are the
  submitted ones and no session is open; it has been called exactly when the script has
  ended without an exception; with no list file or an unusable row it is never called;
  and with a list of usable rows every run can be continued to its end, where it has
  been called once.
\<close>

theorem rotacion_tras_la_barrera:
  "(rotaciones (ejecutar env acciones (inicial env w)) = []
      \<or> rotaciones (ejecutar env acciones (inicial env w)) = [cwd env])
   \<and> (pc (ejecutar env acciones (inicial env w)) = Por_rotar
        \<or> rotaciones (ejecutar env acciones (inicial env w)) \<noteq> [] \<longrightarrow>
         cola (ejecutar env acciones (inicial env w)) = []
         \<and> activos (ejecutar env acciones (inicial env w)) = []
         \<and> mset (map fst (hechos (ejecutar env acciones (inicial env w))))
             = mset (enviados (ejecutar env acciones (inicial env w)))
         \<and> abiertas (ejecutar env acciones (inicial env w)) = 0)
   \<and> (rotaciones (ejecutar env acciones (inicial env w)) = [cwd env]
        \<longleftrightarrow> pc (ejecutar env acciones (inicial env w)) = Terminado None)
   \<and> (rt_csv env = None \<or> (\<exists>rows. rt_csv env = Some rows \<and> \<not> list_all fila_ok rows) \<longrightarrow>
         rotaciones (ejecutar env acciones (inicial env w)) = [])
   \<and> (\<forall>rows. rt_csv env = Some rows \<and> list_all fila_ok rows \<longrightarrow>
         (\<exists>mas. pc (ejecutar env (acciones @ mas) (inicial env w)) = Terminado None
               \<and> rotaciones (ejecutar env (acciones @ mas) (inicial env w)) = [cwd env]))"
proof -
  let ?S = "ejecutar env acciones (inicial env w)"
  have o: "en_orden env ?S" by (rule en_orden_ejecutar)
  have a: "acotado ?S" by (rule acotado_ejecutar)
  from o have r: "rotaciones ?S = (if pc ?S = Terminado None then [cwd env] else [])"
    by (simp add: en_orden_def)
  from o have m: "mset (enviados ?S)
      = mset (cola ?S) + mset (map fst (activos ?S)) + mset (map fst (hechos ?S))"
    by (simp add: en_orden_def)
  from o have v: "pc ?S = Por_rotar \<or> (\<exists>x. pc ?S = Terminado x) \<Longrightarrow> cola ?S = [] \<and> activos ?S = []"
    by (simp add: en_orden_def)
  have c1: "rotaciones ?S = [] \<or> rotaciones ?S = [cwd env]" using r by simp
  have c2: "pc ?S = Por_rotar \<or> rotaciones ?S \<noteq> [] \<longrightarrow>
         cola ?S = [] \<and> activos ?S = []
         \<and> mset (map fst (hechos ?S)) = mset (enviados ?S) \<and> abiertas ?S = 0"
  proof
    assume "pc ?S = Por_rotar \<or> rotaciones ?S \<noteq> []"
    with r have "pc ?S = Por_rotar \<or> (\<exists>x. pc ?S = Terminado x)" by (auto split: if_splits)
    from v[OF this] have e: "cola ?S = []" "activos ?S = []" by simp_all
    from a have "filter abierta_hecho (hechos ?S) = []" by (simp add: acotado_def)
    with e m show "cola ?S = [] \<and> activos ?S = []
         \<and> mset (map fst (hechos ?S)) = mset (enviados ?S) \<and> abiertas ?S = 0"
      by (simp add: abiertas_def)
  qed
  have c3: "rotaciones ?S = [cwd env] \<longleftrightarrow> pc ?S = Terminado None" using r by simp
  have c4: "rt_csv env = None \<or> (\<exists>rows. rt_csv env = Some rows \<and> \<not> list_all fila_ok rows) \<longrightarrow>
         rotaciones ?S = []"
    using lista_mala_no_rota[of env acciones w] by blast
  have c5: "\<forall>rows. rt_csv env = Some rows \<and> list_all fila_ok rows \<longrightarrow>
         (\<exists>mas. pc (ejecutar env (acciones @ mas) (inicial env w)) = Terminado None
               \<and> rotaciones (ejecutar env (acciones @ mas) (inicial env w)) = [cwd env])"
    using lista_buena_termina[of env _ acciones w] by blast
  from c1 c2 c3 c4 c5 show ?thesis by blast
qed

theorem rotacion_tras_la_barrera_witness:
  "pc (ejecutar
        \<lparr>rt_csv = Some [Inr [''10.0.0.1'', ''edge1'']], error_open = FileNotFoundError, cwd = ''/srv'',
         connect = (\<lambda>_. None),
         router_de = (\<lambda>_. \<lparr>r_open_sftp = None, r_listdir = (\<lambda>_. Inr []),
                              r_get = (\<lambda>_ _. None), r_cwd = [], r_hora = 0\<rparr>),
         hoy = ''20240101'', ahora = 0\<rparr>
        [Principal, Principal, Tomar, Conectar 0, Descargar 0, Principal, Principal]
        (inicial
        \<lparr>rt_csv = Some [Inr [''10.0.0.1'', ''edge1'']], error_open = FileNotFoundError, cwd = ''/srv'',
         connect = (\<lambda>_. None),
         router_de = (\<lambda>_. \<lparr>r_open_sftp = None, r_listdir = (\<lambda>_. Inr []),
                              r_get = (\<lambda>_ _. None), r_cwd = [], r_hora = 0\<rparr>),
         hoy = ''20240101'', ahora = 0\<rparr>
        \<lparr>registro = [], dir = \<lparr>entradas = [], falla = (\<lambda>_. None), sello = (\<lambda>t. t)\<rparr>,
           pedidos = []\<rparr>)) = Terminado None
   \<and> rotaciones (ejecutar
        \<lparr>rt_csv = Some [Inr [''10.0.0.1'', ''edge1'']], error_open = FileNotFoundError, cwd = ''/srv'',
         connect = (\<lambda>_. None),
         router_de = (\<lambda>_. \<lparr>r_open_sftp = None, r_listdir = (\<lambda>_. Inr []),
                              r_get = (\<lambda>_ _. None), r_cwd = [], r_hora = 0\<rparr>),
         hoy = ''20240101'', ahora = 0\<rparr>
        [Principal, Principal, Tomar, Conectar 0, Descargar 0, Principal, Principal]
        (inicial
        \<lparr>rt_csv = Some [Inr [''10.0.0.1'', ''edge1'']], error_open = FileNotFoundError, cwd = ''/srv'',
         connect = (\<lambda>_. None),
         router_de = (\<lambda>_. \<lparr>r_open_sftp = None, r_listdir = (\<lambda>_. Inr []),
                              r_get = (\<lambda>_ _. None), r_cwd = [], r_hora = 0\<rparr>),
         hoy = ''20240101'', ahora = 0\<rparr>
        \<lparr>registro = [], dir = \<lparr>entradas = [], falla = (\<lambda>_. None), sello = (\<lambda>t. t)\<rparr>,
           pedidos = []\<rparr>)) = [''/srv'']
   \<and> cola (ejecutar
        \<lparr>rt_csv = Some [Inr [''10.0.0.1'', ''edge1'']], error_open = FileNotFoundError, cwd = ''/srv'',
         connect = (\<lambda>_. None),
         router_de = (\<lambda>_. \<lparr>r_open_sftp = None, r_listdir = (\<lambda>_. Inr []),
                              r_get = (\<lambda>_ _. None), r_cwd = [], r_hora = 0\<rparr>),
         hoy = ''20240101'', ahora = 0\<rparr>
        [Principal, Principal, Tomar, Conectar 0, Descargar 0, Principal, Principal]
        (inicial
        \<lparr>rt_csv = Some [Inr [''10.0.0.1'', ''edge1'']], error_open = FileNotFoundError, cwd = ''/srv'',
         connect = (\<lambda>_. None),
         router_de = (\<lambda>_. \<lparr>r_open_sftp = None, r_listdir = (\<lambda>_. Inr []),
                              r_get = (\<lambda>_ _. None), r_cwd = [], r_hora = 0\<rparr>),
         hoy = ''20240101'', ahora = 0\<rparr>
        \<lparr>registro = [], dir = \<lparr>entradas = [], falla = (\<lambda>_. None), sello = (\<lambda>t. t)\<rparr>,
           pedidos = []\<rparr>)) = []
   \<and> activos (ejecutar
        \<lparr>rt_csv = Some [Inr [''10.0.0.1'', ''edge1'']], error_open = FileNotFoundError, cwd = ''/srv'',
         connect = (\<lambda>_. None),
         router_de = (\<lambda>_. \<lparr>r_open_sftp = None, r_listdir = (\<lambda>_. Inr []),
                              r_get = (\<lambda>_ _. None), r_cwd = [], r_hora = 0\<rparr>),
         hoy = ''20240101'', ahora = 0\<rparr>
        [Principal, Principal, Tomar, Conectar 0, Descargar 0, Principal, Principal]
        (inicial
        \<lparr>rt_csv = Some [Inr [''10.0.0.1'', ''edge1'']], error_open = FileNotFoundError, cwd = ''/srv'',
         connect = (\<lambda>_. None),
         router_de = (\<lambda>_. \<lparr>r_open_sftp = None, r_listdir = (\<lambda>_. Inr []),
                              r_get = (\<lambda>_ _. None), r_cwd = [], r_hora = 0\<rparr>),
         hoy = ''20240101'', ahora = 0\<rparr>
        \<lparr>registro = [], dir = \<lparr>entradas = [], falla = (\<lambda>_. None), sello = (\<lambda>t. t)\<rparr>,
           pedidos = []\<rparr>)) = []
   \<and> mset (map fst (hechos (ejecutar
        \<lparr>rt_csv = Some [Inr [''10.0.0.1'', ''edge1'']], error_open = FileNotFoundError, cwd = ''/srv'',
         connect = (\<lambda>_. None),
         router_de = (\<lambda>_. \<lparr>r_open_sftp = None, r_listdir = (\<lambda>_. Inr []),
                              r_get = (\<lambda>_ _. None), r_cwd = [], r_hora = 0\<rparr>),
         hoy = ''20240101'', ahora = 0\<rparr>
        [Principal, Principal, Tomar, Conectar 0, Descargar 0, Principal, Principal]
        (inicial
        \<lparr>rt_csv = Some [Inr [''10.0.0.1'', ''edge1'']], error_open = FileNotFoundError, cwd = ''/srv'',
         connect = (\<lambda>_. None),
         router_de = (\<lambda>_. \<lparr>r_open_sftp = None, r_listdir = (\<lambda>_. Inr []),
                              r_get = (\<lambda>_ _. None), r_cwd = [], r_hora = 0\<rparr>),
         hoy = ''20240101'', ahora = 0\<rparr>
        \<lparr>registro = [], dir = \<lparr>entradas = [], falla = (\<lambda>_. None), sello = (\<lambda>t. t)\<rparr>,
           pedidos = []\<rparr>))))
       = mset (enviados (ejecutar
        \<lparr>rt_csv = Some [Inr [''10.0.0.1'', ''edge1'']], error_open = FileNotFoundError, cwd = ''/srv'',
         connect = (\<lambda>_. None),
         router_de = (\<lambda>_. \<lparr>r_open_sftp = None, r_listdir = (\<lambda>_. Inr []),
                              r_get = (\<lambda>_ _. None), r_cwd = [], r_hora = 0\<rparr>),
         hoy = ''20240101'', ahora = 0\<rparr>
        [Principal, Principal, Tomar, Conectar 0, Descargar 0, Principal, Principal]
        (inicial
        \<lparr>rt_csv = Some [Inr [''10.0.0.1'', ''edge1'']], error_open = FileNotFoundError, cwd = ''/srv'',
         connect = (\<lambda>_. None),
         router_de = (\<lambda>_. \<lparr>r_open_sftp = None, r_listdir = (\<lambda>_. Inr []),
                              r_get = (\<lambda>_ _. None), r_cwd = [], r_hora = 0\<rparr>),
         hoy = ''20240101'', ahora = 0\<rparr>
        \<lparr>registro = [], dir = \<lparr>entradas = [], falla = (\<lambda>_. None), sello = (\<lambda>t. t)\<rparr>,
           pedidos = []\<rparr>)))
   \<and> abiertas (ejecutar
        \<lparr>rt_csv = Some [Inr [''10.0.0.1'', ''edge1'']], error_open = FileNotFoundError, cwd = ''/srv'',
         connect = (\<lambda>_. None),
         router_de = (\<lambda>_. \<lparr>r_open_sftp = None, r_listdir = (\<lambda>_. Inr []),
                              r_get = (\<lambda>_ _. None), r_cwd = [], r_hora = 0\<rparr>),
         hoy = ''20240101'', ahora = 0\<rparr>
        [Principal, Principal, Tomar, Conectar 0, Descargar 0, Principal, Principal]
        (inicial
        \<lparr>rt_csv = Some [Inr [''10.0.0.1'', ''edge1'']], error_open = FileNotFoundError, cwd = ''/srv'',
         connect = (\<lambda>_. None),
         router_de = (\<lambda>_. \<lparr>r_open_sftp = None, r_listdir = (\<lambda>_. Inr []),
                              r_get = (\<lambda>_ _. None), r_cwd = [], r_hora = 0\<rparr>),
         hoy = ''20240101'', ahora = 0\<rparr>
        \<lparr>registro = [], dir = \<lparr>entradas = [], falla = (\<lambda>_. None), sello = (\<lambda>t. t)\<rparr>,
           pedidos = []\<rparr>)) = 0"
proof -
  let ?env = "\<lparr>rt_csv = Some [Inr [''10.0.0.1'', ''edge1'']], error_open = FileNotFoundError, cwd = ''/srv'',
         connect = (\<lambda>_. None),
         router_de = (\<lambda>_. \<lparr>r_open_sftp = None, r_listdir = (\<lambda>_. Inr []),
                              r_get = (\<lambda>_ _. None), r_cwd = [], r_hora = 0\<rparr>),
         hoy = ''20240101'', ahora = 0\<rparr>"
  let ?w = "\<lparr>registro = [], dir = \<lparr>entradas = [], falla = (\<lambda>_. None), sello = (\<lambda>t. t)\<rparr>,
           pedidos = []\<rparr>"
  let ?acc = "[Principal, Principal, Tomar, Conectar 0, Descargar 0, Principal, Principal]"
  have p: "pc (ejecutar ?env ?acc (inicial ?env ?w)) = Terminado None"
    by (simp add: evalua_pasos evalua_descargas renombrar_backups_antiguos_def os_listdir_def)
  note t = rotacion_tras_la_barrera[of ?env ?acc ?w]
  from t p have r: "rotaciones (ejecutar ?env ?acc (inicial ?env ?w)) = [cwd ?env]" by blast
  with t have "cola (ejecutar ?env ?acc (inicial ?env ?w)) = []
         \<and> activos (ejecutar ?env ?acc (inicial ?env ?w)) = []
         \<and> mset (map fst (hechos (ejecutar ?env ?acc (inicial ?env ?w))))
             = mset (enviados (ejecutar ?env ?acc (inicial ?env ?w)))
         \<and> abiertas (ejecutar ?env ?acc (inicial ?env ?w)) = 0"
    by simp
  with p r show ?thesis by simp
qed




end
